theory Spec2Isabelle
  imports Main "HOL-Library.Sublist"
begin

section \<open>Data model\<close>

text \<open>
  The rows of \<^verbatim>\<open>db/schema.prisma\<close> that the synchronisation code of
  \<^verbatim>\<open>app/spotify/spotifyApi.ts\<close> reads and writes. A \<^verbatim>\<open>DateTime\<close> is the number of
  milliseconds since the epoch, an \<^verbatim>\<open>Int\<close> key an \<open>int\<close>, a \<^verbatim>\<open>String\<close> a \<open>string\<close>.
  The bookkeeping columns \<^verbatim>\<open>createdAt\<close> and \<^verbatim>\<open>updatedAt\<close> are kept for the user row, which
  the code updates; the album, artist and track rows are only ever inserted, and their
  bookkeeping columns and the tracks' autoincrement key are left out.
\<close>

type_synonym instant = int

datatype role = USER

record user =
  user_id :: int
  user_createdAt :: instant
  user_updatedAt :: instant
  user_role :: role
  user_spotifyId :: string
  avatarUrl :: "string option"
  accessToken :: string
  accessTokenExpiresAt :: instant
  refreshToken :: string

record album =
  album_id :: string
  album_name :: string
  thumbnailUrl :: string
  dateReleased :: string

record artist =
  artist_id :: string
  artist_name :: string
  genres :: "string list"

record track =
  track_userId :: int
  track_spotifyId :: string
  track_name :: string
  track_albumId :: string
  track_artists :: "string list"
  dateAdded :: string
  explicit :: bool

section \<open>The network\<close>

text \<open>
  A \<^verbatim>\<open>Request\<close> is its method, its URL, its body and its \<^verbatim>\<open>Authorization\<close> header. The
  URLs the code builds are one constructor each:
  \<^item> \<open>ApiToken\<close>: \<^verbatim>\<open>https://accounts.spotify.com/api/token\<close>
  \<^item> \<open>MeTracks offset limit\<close>: \<^verbatim>\<open>https://api.spotify.com/v1/me/tracks?offset=${offset}&limit=${limit}\<close>
  \<^item> \<open>ArtistsByIds ids\<close>: \<^verbatim>\<open>https://api.spotify.com/v1/artists?ids=${encodeURIComponent(ids.join(","))}\<close>
  \<^item> \<open>PlaylistTracksUris id uris\<close>:
    \<^verbatim>\<open>https://api.spotify.com/v1/playlists/${id}/tracks?uris=${encodeURIComponent(uris.join(","))}\<close>
  \<^item> \<open>PlaylistTracks id\<close>: \<^verbatim>\<open>https://api.spotify.com/v1/playlists/${id}/tracks\<close>
\<close>

datatype http_method = GET | PUT | POST | DELETE

datatype url =
    ApiToken
  | MeTracks nat nat
  | ArtistsByIds "string list"
  | PlaylistTracksUris string "string list"
  | PlaylistTracks string

datatype req_body =
    NoBody
  | RefreshGrant string
  | RemoveTracks "string list"

datatype authorization = NoAuthorization | Basic string string | Bearer string

record request =
  req_method :: http_method
  req_url :: url
  req_body :: req_body
  req_authorization :: authorization

text \<open>
  The JSON bodies the service answers with, by the shape the zod schemas of the code accept:
  \<^verbatim>\<open>TokenResponse\<close>, \<^verbatim>\<open>TracksResponse\<close> and \<^verbatim>\<open>ArtistsResponse\<close>; any other JSON value is
  \<open>OtherJson\<close>.
\<close>

record spotify_album =
  sp_album_id :: string
  images :: "string list"
  sp_album_name :: string
  release_date :: string

record spotify_track =
  sp_album :: spotify_album
  sp_artists :: "string list"
  sp_explicit :: bool
  sp_id :: string
  sp_name :: string

record item =
  added_at :: string
  item_track :: spotify_track

datatype json =
    TokenJson string int
  | TracksJson "item list"
  | ArtistsJson "artist list"
  | OtherJson

text \<open>
  What \<^verbatim>\<open>fetch\<close> gives: a rejected promise (\<open>NetworkFailure\<close>), or a response with its
  \<^verbatim>\<open>ok\<close> flag, its status and its body, \<open>None\<close> when the body is not JSON and
  \<^verbatim>\<open>res.json()\<close> rejects.
\<close>

datatype response = NetworkFailure | Response bool nat "json option"

datatype error =
    FetchError
  | SyntaxError
  | ZodError
  | ApiError response
  | RecordNotFound
  | UniqueConstraint
  | InvalidWhere

datatype db_write =
    UpdateUser int
  | CreateManyAlbums "album list"
  | CreateManyArtists "artist list"
  | CreateTrack track

datatype log_entry =
    InfoExpired
  | InfoRequest http_method url
  | InfoStatus nat
  | ErrorApi
  | ErrorBody json
  | ErrorCaught error

section \<open>The environment and the state\<close>

text \<open>
  What the code cannot decide is a parameter: the wall clock (its \<open>k\<close>-th reading), the
  answer of the network to the \<open>n\<close>-th request sent, the credentials of \<^verbatim>\<open>env\<close>, the
  parser generated from the label grammar (\<^verbatim>\<open>parser.parse\<close>, with the \<^verbatim>\<open>success\<close> flag and
  the \<^verbatim>\<open>result\<close> of what it returns) and the meaning Prisma gives to a
  \<^verbatim>\<open>Prisma.TrackWhereInput\<close>: a predicate on track rows, or \<open>None\<close> when Prisma rejects
  the value it is handed.
\<close>

record 'f parse_result =
  success :: bool
  result :: 'f

record 'f env =
  clock :: "nat \<Rightarrow> instant"
  network :: "nat \<Rightarrow> request \<Rightarrow> response"
  SPOTIFY_CLIENT_ID :: string
  SPOTIFY_CLIENT_SECRET :: string
  parser_parse :: "string \<Rightarrow> 'f parse_result"
  where_input :: "'f \<Rightarrow> (track \<Rightarrow> bool) option"

text \<open>
  The state every function threads through: the \<^verbatim>\<open>User\<close> object the caller passes by
  reference (\<open>this_user\<close>), the tables of the store, the write statements the store has
  executed, the requests sent so far, the log and the number of clock readings taken.
\<close>

record state =
  this_user :: user
  db_users :: "user list"
  db_albums :: "album list"
  db_artists :: "artist list"
  db_tracks :: "track list"
  db_log :: "db_write list"
  sent :: "request list"
  logged :: "log_entry list"
  ticks :: nat

definition now :: "'f env \<Rightarrow> state \<Rightarrow> instant \<times> state" where
  "now e s = (clock e (ticks s), s\<lparr>ticks := Suc (ticks s)\<rparr>)"

definition fetch :: "'f env \<Rightarrow> request \<Rightarrow> state \<Rightarrow> response \<times> state" where
  "fetch e req s = (network e (length (sent s)) req, s\<lparr>sent := sent s @ [req]\<rparr>)"

definition log_write :: "log_entry \<Rightarrow> state \<Rightarrow> state" where
  "log_write l s = s\<lparr>logged := logged s @ [l]\<rparr>"

section \<open>Token refresh and the authenticated request\<close>

text \<open>
  \<^verbatim>\<open>db.user.update({ where: { id }, data })\<close> with the two fields of \<^verbatim>\<open>modifiedFields\<close>:
  the row with that key gets them, and Prisma stamps its \<^verbatim>\<open>@updatedAt\<close> column with the
  time of the update; no such row is an error.
\<close>

definition user_update :: "'f env \<Rightarrow> int \<Rightarrow> string \<Rightarrow> instant \<Rightarrow> state \<Rightarrow> (error + unit) \<times> state" where
  "user_update e uid tok expires s =
     (if uid \<in> user_id ` set (db_users s) then
        (let (t, s1) = now e s
         in (Inr (), s1\<lparr>db_users :=
               map (\<lambda>u. if user_id u = uid
                          then u\<lparr>accessToken := tok, accessTokenExpiresAt := expires,
                                 user_updatedAt := t\<rparr>
                          else u) (db_users s1),
               db_log := db_log s1 @ [UpdateUser uid]\<rparr>))
      else (Inl RecordNotFound, s))"

text \<open>\<^verbatim>\<open>TokenResponse.parse\<close>: an object with a string and a number, or a \<^verbatim>\<open>ZodError\<close>.\<close>

fun TokenResponse_parse :: "json \<Rightarrow> error + string \<times> int" where
  "TokenResponse_parse (TokenJson access_token expires_in) = Inr (access_token, expires_in)"
| "TokenResponse_parse _ = Inl ZodError"

text \<open>The request of lines 20 to 32: the refresh-token grant, under the client's credentials.\<close>

definition refresh_request :: "'f env \<Rightarrow> user \<Rightarrow> request" where
  "refresh_request e u =
     \<lparr>req_method = POST, req_url = ApiToken, req_body = RefreshGrant (refreshToken u),
      req_authorization = Basic (SPOTIFY_CLIENT_ID e) (SPOTIFY_CLIENT_SECRET e)\<rparr>"

definition refreshAccessToken :: "'f env \<Rightarrow> state \<Rightarrow> (error + unit) \<times> state" where
  "refreshAccessToken e s =
     (let (tokenRes, s1) = fetch e (refresh_request e (this_user s)) s
      in case tokenRes of
           NetworkFailure \<Rightarrow> (Inl FetchError, s1)
         | Response ok status None \<Rightarrow> (Inl SyntaxError, s1)
         | Response ok status (Some j) \<Rightarrow>
             (case TokenResponse_parse j of
                Inl err \<Rightarrow> (Inl err, s1)
              | Inr (tok, expiresIn) \<Rightarrow>
                  (let (t, s2) = now e s1;
                       expires = t + (expiresIn - 60) * 1000
                   in case user_update e (user_id (this_user s2)) tok expires s2 of
                        (Inl err, s3) \<Rightarrow> (Inl err, s3)
                      | (Inr u, s3) \<Rightarrow>
                          (Inr (), s3\<lparr>this_user := (this_user s3)
                             \<lparr>accessToken := tok, accessTokenExpiresAt := expires\<rparr>\<rparr>))))"

text \<open>
  \<^verbatim>\<open>spotifyFetch\<close>: the clock is read once; a token whose expiry lies before that instant
  is refreshed first; the request goes out under the user's token (the constant
  \<^verbatim>\<open>Accept\<close> header is left out); a body that is no JSON or a status that is not ok is an
  error, the latter logged with the body.
\<close>

definition spotifyFetch :: "'f env \<Rightarrow> request \<Rightarrow> state \<Rightarrow> (error + json) \<times> state" where
  "spotifyFetch e req s =
     (let (t, s1) = now e s
      in case (if t > accessTokenExpiresAt (this_user s1)
               then refreshAccessToken e (log_write InfoExpired s1)
               else (Inr (), s1)) of
           (Inl err, s2) \<Rightarrow> (Inl err, s2)
         | (Inr u, s2) \<Rightarrow>
             (let authorizedReq = req\<lparr>req_authorization := Bearer (accessToken (this_user s2))\<rparr>;
                  (res, s3) = fetch e authorizedReq
                                (log_write (InfoRequest (req_method req) (req_url req)) s2)
              in case res of
                   NetworkFailure \<Rightarrow> (Inl FetchError, s3)
                 | Response ok status None \<Rightarrow> (Inl SyntaxError, log_write (InfoStatus status) s3)
                 | Response ok status (Some body) \<Rightarrow>
                     (if ok then (Inr body, log_write (InfoStatus status) s3)
                      else (Inl (ApiError res),
                            log_write (ErrorBody body)
                              (log_write ErrorApi (log_write (InfoStatus status) s3))))))"

section \<open>lodash\<close>

text \<open>
  \<^verbatim>\<open>chunk(array, size)\<close>: consecutive slices of \<open>size\<close> elements, the last one shorter;
  no slice at all for an empty array or a size under one.
\<close>

function chunk :: "'a list \<Rightarrow> nat \<Rightarrow> 'a list list" where
  "chunk array n = (if n < 1 \<or> array = [] then [] else take n array # chunk (drop n array) n)"
  by pat_completeness auto
termination
  by (relation "measure (\<lambda>(array, n). length array)") auto

declare chunk.simps [simp del]

text \<open>
  \<^verbatim>\<open>uniqBy(array, key)\<close> keeps the first element of every key, in order (\<open>seen\<close> are the
  keys met so far); \<^verbatim>\<open>uniq\<close> is \<^verbatim>\<open>uniqBy\<close> with the element as its own key.
  \<^verbatim>\<open>difference(array, values)\<close> keeps the elements of \<open>array\<close> that are not in
  \<open>values\<close>, duplicates included; \<^verbatim>\<open>differenceBy\<close> compares by a key.
\<close>

fun uniq_seen :: "'k list \<Rightarrow> ('a \<Rightarrow> 'k) \<Rightarrow> 'a list \<Rightarrow> 'a list" where
  "uniq_seen seen key [] = []"
| "uniq_seen seen key (x # xs) =
     (if key x \<in> set seen then uniq_seen seen key xs
      else x # uniq_seen (key x # seen) key xs)"

definition uniqBy :: "'a list \<Rightarrow> ('a \<Rightarrow> 'k) \<Rightarrow> 'a list" where
  "uniqBy array key = uniq_seen [] key array"

definition uniq :: "'a list \<Rightarrow> 'a list" where
  "uniq array = uniqBy array (\<lambda>x. x)"

definition difference :: "'a list \<Rightarrow> 'a list \<Rightarrow> 'a list" where
  "difference array vals = filter (\<lambda>x. x \<notin> set vals) array"

definition differenceBy :: "'a list \<Rightarrow> 'b list \<Rightarrow> ('a \<Rightarrow> 'k) \<Rightarrow> ('b \<Rightarrow> 'k) \<Rightarrow> 'a list" where
  "differenceBy array vals key key' = filter (\<lambda>x. key x \<notin> set (map key' vals)) array"

section \<open>The criteria compiler's entry points (app/lib/smartLabel.ts)\<close>

definition generatePrismaFilter :: "'f env \<Rightarrow> string \<Rightarrow> 'f option" where
  "generatePrismaFilter e criteria =
     (let r = parser_parse e criteria in if success r then Some (result r) else None)"


section \<open>Pushing the playlists\<close>

text \<open>
  A row of \<^verbatim>\<open>dbPlaylists\<close>: the playlist with its label included, and in the label the
  explicit track relation, selected down to \<^verbatim>\<open>spotifyId\<close> and ordered by the query.
\<close>

record label =
  label_id :: int
  label_userId :: int
  label_name :: string
  label_tracks :: "string list"
  smartCriteria :: "string option"

record playlist =
  playlist_id :: int
  playlist_userId :: int
  playlist_spotifyId :: string
  labelId :: int
  playlist_label :: label

definition dummyTrackSpotifyId :: string where
  "dummyTrackSpotifyId = ''41MCdlvXOl62B7Kv86Bb1v''"

text \<open>
  \<^verbatim>\<open>db.track.findMany({ where: { userId, ...filter } })\<close>. Spreading \<^verbatim>\<open>null\<close> into an object
  literal adds no property, so with no filter the clause is \<^verbatim>\<open>{ userId }\<close> alone. The
  filter is taken not to bind \<^verbatim>\<open>userId\<close> itself.
\<close>

definition track_findMany :: "'f env \<Rightarrow> int \<Rightarrow> 'f option \<Rightarrow> state \<Rightarrow> error + track list" where
  "track_findMany e uid spread s =
     (case spread of
        None \<Rightarrow> Inr (filter (\<lambda>t. track_userId t = uid) (db_tracks s))
      | Some f \<Rightarrow>
          (case where_input e f of
             None \<Rightarrow> Inl InvalidWhere
           | Some p \<Rightarrow> Inr (filter (\<lambda>t. track_userId t = uid \<and> p t) (db_tracks s))))"

text \<open>
  Lines 300 to 313 and 320: the value of \<^verbatim>\<open>trackSpotifyIds\<close>, the ids of \<^verbatim>\<open>tracks\<close> after
  the override for smart labels.
\<close>

definition trackSpotifyIds :: "'f env \<Rightarrow> playlist \<Rightarrow> state \<Rightarrow> string list \<times> state" where
  "trackSpotifyIds e pl s =
     (case smartCriteria (playlist_label pl) of
        None \<Rightarrow> (label_tracks (playlist_label pl), s)
      | Some criteria \<Rightarrow>
          (case track_findMany e (user_id (this_user s)) (generatePrismaFilter e criteria) s of
             Inl err \<Rightarrow> ([], log_write (ErrorCaught err) s)
           | Inr tracks \<Rightarrow> (map track_spotifyId tracks, s)))"

definition track_uri :: "string \<Rightarrow> string" where
  "track_uri spotifyId = ''spotify:track:'' @ spotifyId"

definition upload_request :: "string \<Rightarrow> nat \<Rightarrow> string list \<Rightarrow> request" where
  "upload_request pid index spotifyIds =
     \<lparr>req_method = (if index = 0 then PUT else POST),
      req_url = PlaylistTracksUris pid (map track_uri spotifyIds),
      req_body = NoBody, req_authorization = NoAuthorization\<rparr>"

definition remove_request :: "string \<Rightarrow> request" where
  "remove_request pid =
     \<lparr>req_method = DELETE, req_url = PlaylistTracks pid,
      req_body = RemoveTracks [track_uri dummyTrackSpotifyId],
      req_authorization = NoAuthorization\<rparr>"

text \<open>The loop of lines 321 to 342 over the chunks, from the chunk of index \<open>index\<close> on.\<close>

fun upload :: "'f env \<Rightarrow> string \<Rightarrow> nat \<Rightarrow> string list list \<Rightarrow> state \<Rightarrow> (error + unit) \<times> state" where
  "upload e pid index [] s = (Inr (), s)"
| "upload e pid index (spotifyIds # rest) s =
     (case spotifyFetch e (upload_request pid index spotifyIds) s of
        (Inl err, s1) \<Rightarrow> (Inl err, s1)
      | (Inr body, s1) \<Rightarrow> upload e pid (Suc index) rest s1)"

text \<open>The callback of lines 297 to 359, for one playlist.\<close>

definition pushPlaylist :: "'f env \<Rightarrow> playlist \<Rightarrow> state \<Rightarrow> (error + unit) \<times> state" where
  "pushPlaylist e pl s =
     (let (ids, s1) = trackSpotifyIds e pl s
      in case upload e (playlist_spotifyId pl) 0
                (chunk (if length ids > 0 then ids else [dummyTrackSpotifyId]) 50) s1 of
           (Inl err, s2) \<Rightarrow> (Inl err, s2)
         | (Inr u, s2) \<Rightarrow>
             (if length (label_tracks (playlist_label pl)) = 0
              then (case spotifyFetch e (remove_request (playlist_spotifyId pl)) s2 of
                      (Inl err, s3) \<Rightarrow> (Inl err, s3)
                    | (Inr body, s3) \<Rightarrow> (Inr (), s3))
              else (Inr (), s2)))"

text \<open>
  \<^verbatim>\<open>Promise.all\<close> over the callbacks: every callback is started and runs to its own end
  whatever the others do, and the whole rejects with a rejection of one of them. The
  callbacks run here one after the other, in the order of the list.
\<close>

fun pushAll :: "'f env \<Rightarrow> playlist list \<Rightarrow> state \<Rightarrow> (error + unit) list \<times> state" where
  "pushAll e [] s = ([], s)"
| "pushAll e (pl # pls) s =
     (let (r, s1) = pushPlaylist e pl s;
          (rs, s2) = pushAll e pls s1
      in (r # rs, s2))"

text \<open>
  The second phase of \<^verbatim>\<open>syncPlaylists\<close> (lines 295 to 360), from the rows
  \<^verbatim>\<open>dbPlaylists\<close> that the first phase has created and loaded.
\<close>

definition syncPlaylists :: "'f env \<Rightarrow> playlist list \<Rightarrow> state \<Rightarrow> (error + unit) \<times> state" where
  "syncPlaylists e dbPlaylists s =
     (let (rs, s1) = pushAll e dbPlaylists s
      in (case filter isl rs of [] \<Rightarrow> Inr () | r # _ \<Rightarrow> Inl (projl r), s1))"

text \<open>
  The calls made to the API so far, without the token exchanges and without the
  \<^verbatim>\<open>Authorization\<close> header: method, URL and body.
\<close>

definition api_calls :: "state \<Rightarrow> (http_method \<times> url \<times> req_body) list" where
  "api_calls s =
     map (\<lambda>r. (req_method r, req_url r, req_body r))
       (filter (\<lambda>r. req_url r \<noteq> ApiToken) (sent s))"

section \<open>Pulling the favourite tracks\<close>

text \<open>
  \<^verbatim>\<open>encodeURIComponent\<close> on a string of bytes (the UTF-8 text): letters, digits and
  \<^verbatim>\<open>- _ . ! ~ * ' ( )\<close> stay, every other byte becomes \<^verbatim>\<open>%XX\<close>.
\<close>

definition unreserved :: "char \<Rightarrow> bool" where
  "unreserved c =
     (let n = (of_char c :: nat)
      in (65 \<le> n \<and> n \<le> 90) \<or> (97 \<le> n \<and> n \<le> 122) \<or> (48 \<le> n \<and> n \<le> 57)
         \<or> c \<in> set ''-_.!~*()'' \<or> n = 39)"

definition hex_digit :: "nat \<Rightarrow> char" where
  "hex_digit n = ''0123456789ABCDEF'' ! (n mod 16)"

definition encodeURIComponent :: "string \<Rightarrow> string" where
  "encodeURIComponent str =
     concat (map (\<lambda>c. if unreserved c then [c]
                       else [CHR ''%'', hex_digit (of_char c div 16), hex_digit (of_char c)]) str)"

fun TracksResponse_parse :: "json \<Rightarrow> error + item list" where
  "TracksResponse_parse (TracksJson items) = Inr items"
| "TracksResponse_parse _ = Inl ZodError"

fun ArtistsResponse_parse :: "json \<Rightarrow> error + artist list" where
  "ArtistsResponse_parse (ArtistsJson artists) = Inr artists"
| "ArtistsResponse_parse _ = Inl ZodError"

definition get_request :: "url \<Rightarrow> request" where
  "get_request u =
     \<lparr>req_method = GET, req_url = u, req_body = NoBody, req_authorization = NoAuthorization\<rparr>"

text \<open>The loop of \<^verbatim>\<open>lookupArtists\<close> over the chunks of ids; \<open>artistGenres\<close> is the array it fills.\<close>

fun lookup_chunks :: "'f env \<Rightarrow> string list list \<Rightarrow> artist list \<Rightarrow> state \<Rightarrow> (error + artist list) \<times> state" where
  "lookup_chunks e [] artistGenres s = (Inr artistGenres, s)"
| "lookup_chunks e (chunkIds # rest) artistGenres s =
     (case spotifyFetch e (get_request (ArtistsByIds chunkIds)) s of
        (Inl err, s1) \<Rightarrow> (Inl err, s1)
      | (Inr body, s1) \<Rightarrow>
          (case ArtistsResponse_parse body of
             Inl err \<Rightarrow> (Inl err, s1)
           | Inr artists \<Rightarrow> lookup_chunks e rest (artistGenres @ artists) s1))"

definition lookupArtists :: "'f env \<Rightarrow> string list \<Rightarrow> state \<Rightarrow> (error + artist list) \<times> state" where
  "lookupArtists e artistIds s = lookup_chunks e (chunk artistIds 50) [] s"

text \<open>
  The album row built from an item of the page (lines 167 to 174); the release date is
  kept as the text the row's date is made from.
\<close>

definition album_data :: "item \<Rightarrow> album" where
  "album_data it =
     (let album = sp_album (item_track it)
      in \<lparr>album_id = sp_album_id album,
          album_name = sp_album_name album,
          thumbnailUrl =
            (case images album of
               url # _ \<Rightarrow> url
             | [] \<Rightarrow> ''https://via.placeholder.com/640.jpg?text=''
                       @ encodeURIComponent (sp_album_name album)),
          dateReleased = release_date album\<rparr>)"

text \<open>The track row built from an item of the page (lines 199 to 209).\<close>

definition track_data :: "int \<Rightarrow> item \<Rightarrow> track" where
  "track_data uid it =
     \<lparr>track_userId = uid,
      track_spotifyId = sp_id (item_track it),
      track_name = sp_name (item_track it),
      track_albumId = sp_album_id (sp_album (item_track it)),
      track_artists = sp_artists (item_track it),
      dateAdded = added_at it,
      explicit = sp_explicit (item_track it)\<rparr>"

text \<open>
  The writes of the store. \<^verbatim>\<open>album.createMany\<close> with \<^verbatim>\<open>skipDuplicates\<close> inserts the rows
  whose key is not there yet and passes over the others. \<^verbatim>\<open>artist.createMany\<close> inserts all
  its rows or, when a key is there already or comes twice, none and fails.
  \<^verbatim>\<open>track.create\<close> fails when the user, the album or an artist it connects is not there,
  or when the unique \<^verbatim>\<open>spotifyId\<close> is taken.
\<close>

fun insert_skipDuplicates :: "album list \<Rightarrow> album list \<Rightarrow> album list" where
  "insert_skipDuplicates rows [] = rows"
| "insert_skipDuplicates rows (a # data) =
     insert_skipDuplicates
       (if album_id a \<in> set (map album_id rows) then rows else rows @ [a]) data"

definition album_createMany :: "album list \<Rightarrow> state \<Rightarrow> state" where
  "album_createMany data s =
     s\<lparr>db_albums := insert_skipDuplicates (db_albums s) data,
       db_log := db_log s @ [CreateManyAlbums data]\<rparr>"

definition artist_createMany :: "artist list \<Rightarrow> state \<Rightarrow> (error + unit) \<times> state" where
  "artist_createMany data s =
     (if distinct (map artist_id data)
         \<and> set (map artist_id data) \<inter> set (map artist_id (db_artists s)) = {}
      then (Inr (), s\<lparr>db_artists := db_artists s @ data,
                       db_log := db_log s @ [CreateManyArtists data]\<rparr>)
      else (Inl UniqueConstraint, s))"

definition track_create :: "track \<Rightarrow> state \<Rightarrow> (error + unit) \<times> state" where
  "track_create t s =
     (if track_userId t \<in> set (map user_id (db_users s))
         \<and> track_albumId t \<in> set (map album_id (db_albums s))
         \<and> set (track_artists t) \<subseteq> set (map artist_id (db_artists s))
      then (if track_spotifyId t \<in> set (map track_spotifyId (db_tracks s))
            then (Inl UniqueConstraint, s)
            else (Inr (), s\<lparr>db_tracks := db_tracks s @ [t],
                             db_log := db_log s @ [CreateTrack t]\<rparr>))
      else (Inl RecordNotFound, s))"

text \<open>
  \<^verbatim>\<open>Promise.all\<close> over the creations of line 222: each one is made, and the first that
  fails is the error of the whole.
\<close>

fun create_all :: "track list \<Rightarrow> state \<Rightarrow> error option \<times> state" where
  "create_all [] s = (None, s)"
| "create_all (t # ts) s =
     (let (r, s1) = track_create t s;
          (rs, s2) = create_all ts s1
      in (case r of Inl err \<Rightarrow> Some err | Inr u \<Rightarrow> rs, s2))"

text \<open>Lines 157 to 162: one page of the favourites, fetched and validated.\<close>

definition fetchPage :: "'f env \<Rightarrow> nat \<Rightarrow> nat \<Rightarrow> state \<Rightarrow> (error + item list) \<times> state" where
  "fetchPage e offset limit s =
     (case spotifyFetch e (get_request (MeTracks offset limit)) s of
        (Inl err, s1) \<Rightarrow> (Inl err, s1)
      | (Inr body, s1) \<Rightarrow> (TracksResponse_parse body, s1))"

text \<open>
  Lines 164 to 222: the page stored. The result is \<^verbatim>\<open>missingTracks.length\<close>. The two
  \<^verbatim>\<open>createMany\<close> promises run when line 196 awaits them, the albums' first here.
\<close>

definition storePage :: "'f env \<Rightarrow> item list \<Rightarrow> state \<Rightarrow> (error + nat) \<times> state" where
  "storePage e items s =
     (let albums = uniqBy (map album_data items) album_id;
          trackArtistIds = uniq (concat (map (\<lambda>it. sp_artists (item_track it)) items));
          existingArtistIds =
            map artist_id (filter (\<lambda>a. artist_id a \<in> set trackArtistIds) (db_artists s));
          newArtistIds = difference trackArtistIds existingArtistIds
      in case lookupArtists e newArtistIds s of
           (Inl err, s1) \<Rightarrow> (Inl err, s1)
         | (Inr newArtists, s1) \<Rightarrow>
             (case artist_createMany newArtists (album_createMany albums s1) of
                (Inl err, s2) \<Rightarrow> (Inl err, s2)
              | (Inr u, s2) \<Rightarrow>
                  (let uid = user_id (this_user s2);
                       newTracks = map (track_data uid) items;
                       existingTracks =
                         filter (\<lambda>t. track_userId t = uid
                                    \<and> track_spotifyId t \<in> set (map track_spotifyId newTracks))
                           (db_tracks s2);
                       missingTracks =
                         differenceBy newTracks existingTracks track_spotifyId track_spotifyId
                   in case create_all missingTracks s2 of
                        (Some err, s3) \<Rightarrow> (Inl err, s3)
                      | (None, s3) \<Rightarrow> (Inr (length missingTracks), s3))))"

text \<open>
  The loop of \<^verbatim>\<open>syncFavoriteTracks\<close>. It has no bound of its own (a service that keeps
  answering with full pages of new tracks keeps it running), so it is given fuel, one unit
  per page: \<open>None\<close> is the loop still running when the fuel is spent.
\<close>

fun syncLoop :: "nat \<Rightarrow> 'f env \<Rightarrow> nat \<Rightarrow> nat \<Rightarrow> state \<Rightarrow> ((error + unit) \<times> state) option" where
  "syncLoop 0 e offset limit s = None"
| "syncLoop (Suc fuel) e offset limit s =
     (case fetchPage e offset limit s of
        (Inl err, s1) \<Rightarrow> Some (Inl err, s1)
      | (Inr items, s1) \<Rightarrow>
          (case storePage e items s1 of
             (Inl err, s2) \<Rightarrow> Some (Inl err, s2)
           | (Inr missing, s2) \<Rightarrow>
               (if missing = limit then syncLoop fuel e (offset + limit) 25 s2
                else Some (Inr (), s2))))"

definition syncFavoriteTracks :: "nat \<Rightarrow> 'f env \<Rightarrow> state \<Rightarrow> ((error + unit) \<times> state) option" where
  "syncFavoriteTracks fuel e s = syncLoop fuel e 0 5 s"

section \<open>What the claims about the pull speak of\<close>

text \<open>
  The favourites requests sent so far (their URLs, in order), and the Spotify ids of the
  tracks stored for the user of the pull.
\<close>

fun is_MeTracks :: "url \<Rightarrow> bool" where
  "is_MeTracks (MeTracks offset limit) = True"
| "is_MeTracks _ = False"

definition favorites_fetches :: "state \<Rightarrow> url list" where
  "favorites_fetches s = filter is_MeTracks (map req_url (sent s))"

definition stored_ids :: "state \<Rightarrow> string set" where
  "stored_ids s =
     set (map track_spotifyId
            (filter (\<lambda>t. track_userId t = user_id (this_user s)) (db_tracks s)))"

text \<open>
  A fixed external feed: whenever the service answers a favourites request with success
  and a list of items, the list is the window of the feed that the request asks for. And
  an artists endpoint that answers as documented: whenever it answers a lookup with
  success and a list of artists, they are the artists of the ids asked for, in order.
\<close>

definition serves_feed :: "'f env \<Rightarrow> item list \<Rightarrow> bool" where
  "serves_feed e feed =
     (\<forall>n r offset limit status items.
        req_url r = MeTracks offset limit \<longrightarrow>
        network e n r = Response True status (Some (TracksJson items)) \<longrightarrow>
        items = take limit (drop offset feed))"

definition serves_artists :: "'f env \<Rightarrow> bool" where
  "serves_artists e =
     (\<forall>n r ids status artists.
        req_url r = ArtistsByIds ids \<longrightarrow>
        network e n r = Response True status (Some (ArtistsJson artists)) \<longrightarrow>
        map artist_id artists = ids)"

text \<open>
  Two relations between states that the proofs about the pull use: the store of \<open>s'\<close>
  is the store of \<open>s\<close> with rows added at the end of its tables, for the same user; and
  every album, artist and track that a page refers to is in the store, the tracks for
  the user of the pull.
\<close>

definition grows :: "state \<Rightarrow> state \<Rightarrow> bool" where
  "grows s s' =
     (user_id (this_user s') = user_id (this_user s)
      \<and> map user_id (db_users s') = map user_id (db_users s)
      \<and> prefix (db_albums s) (db_albums s')
      \<and> prefix (db_artists s) (db_artists s')
      \<and> prefix (db_tracks s) (db_tracks s'))"

definition page_stored :: "item list \<Rightarrow> state \<Rightarrow> bool" where
  "page_stored items s =
     (set (map (\<lambda>it. sp_album_id (sp_album (item_track it))) items)
        \<subseteq> set (map album_id (db_albums s))
      \<and> set (concat (map (\<lambda>it. sp_artists (item_track it)) items))
        \<subseteq> set (map artist_id (db_artists s))
      \<and> set (map (\<lambda>it. sp_id (item_track it)) items) \<subseteq> stored_ids s)"

text \<open>The values of \<^verbatim>\<open>trackArtistIds\<close> and of \<^verbatim>\<open>missingTracks\<close> in \<open>storePage\<close>, by name.\<close>

definition page_artist_ids :: "item list \<Rightarrow> string list" where
  "page_artist_ids items = uniq (concat (map (\<lambda>it. sp_artists (item_track it)) items))"

definition missing_of :: "int \<Rightarrow> item list \<Rightarrow> state \<Rightarrow> track list" where
  "missing_of uid items s =
     differenceBy (map (track_data uid) items)
       (filter (\<lambda>t. track_userId t = uid
                  \<and> track_spotifyId t \<in> set (map track_spotifyId (map (track_data uid) items)))
          (db_tracks s))
       track_spotifyId track_spotifyId"

section \<open>Example inputs\<close>

text \<open>
  A user whose access token ran out at instant 500, a clock that reads 1000 and later, a
  token endpoint that grants the token \<open>new\<close> for an hour, and an API that accepts
  every call. The parser of the example knows one criteria string, whose filter selects
  the tracks that are not explicit, and rejects every other string.
\<close>

definition user0 :: user where
  "user0 = \<lparr>user_id = 1, user_createdAt = 0, user_updatedAt = 0, user_role = USER,
     user_spotifyId = ''u'', avatarUrl = None, accessToken = ''old'',
     accessTokenExpiresAt = 500, refreshToken = ''r''\<rparr>"

definition env0 :: "bool env" where
  "env0 = \<lparr>clock = (\<lambda>k. 1000 + int k),
     network = (\<lambda>n r. if req_url r = ApiToken
                        then Response True 200 (Some (TokenJson ''new'' 3600))
                        else Response True 200 (Some OtherJson)),
     SPOTIFY_CLIENT_ID = ''id'', SPOTIFY_CLIENT_SECRET = ''secret'',
     parser_parse = (\<lambda>c. if c = ''explicit = false''
                          then \<lparr>success = True, result = False\<rparr>
                          else \<lparr>success = False, result = False\<rparr>),
     where_input = (\<lambda>b. Some (\<lambda>t. explicit t = b))\<rparr>"

definition state0 :: state where
  "state0 = \<lparr>this_user = user0, db_users = [user0], db_albums = [], db_artists = [],
     db_tracks = [], db_log = [], sent = [], logged = [], ticks = 0\<rparr>"

text \<open>The same user with a token that is good until instant 5000.\<close>

definition user1 :: user where
  "user1 = user0\<lparr>accessTokenExpiresAt := 5000\<rparr>"

definition state1 :: state where
  "state1 = state0\<lparr>this_user := user1, db_users := [user1]\<rparr>"

definition req0 :: request where
  "req0 = get_request (MeTracks 0 5)"

text \<open>
  Two tracks of that user in the store, the first not explicit, the second explicit; a
  smart label for the tracks that are not explicit, with no stored relation; and its
  playlist.
\<close>

definition track1 :: track where
  "track1 = \<lparr>track_userId = 1, track_spotifyId = ''t1'', track_name = ''one'',
     track_albumId = ''a'', track_artists = [], dateAdded = ''2022-10-01'',
     explicit = False\<rparr>"

definition track2 :: track where
  "track2 = track1\<lparr>track_spotifyId := ''t2'', track_name := ''two'', explicit := True\<rparr>"

definition state2 :: state where
  "state2 = state1\<lparr>db_tracks := [track1, track2]\<rparr>"

definition label_smart :: label where
  "label_smart = \<lparr>label_id = 1, label_userId = 1, label_name = ''clean'',
     label_tracks = [], smartCriteria = Some ''explicit = false''\<rparr>"

definition playlist_smart :: playlist where
  "playlist_smart = \<lparr>playlist_id = 1, playlist_userId = 1, playlist_spotifyId = ''p'',
     labelId = 1, playlist_label = label_smart\<rparr>"

text \<open>The same playlist when the label's criteria are text that the parser rejects.\<close>

definition playlist_invalid :: playlist where
  "playlist_invalid =
     playlist_smart\<lparr>playlist_label := label_smart\<lparr>smartCriteria := Some ''explicit = ''\<rparr>\<rparr>"

text \<open>The same smart label with a track left in its stored relation.\<close>

definition playlist_stale :: playlist where
  "playlist_stale =
     playlist_smart\<lparr>playlist_label := label_smart\<lparr>label_tracks := [''t2'']\<rparr>\<rparr>"

text \<open>A store that holds the explicit track only.\<close>

definition state3 :: state where
  "state3 = state1\<lparr>db_tracks := [track2]\<rparr>"

text \<open>A static label of 51 tracks, and its playlist.\<close>

definition ids51 :: "string list" where
  "ids51 = map (\<lambda>n. replicate (Suc n) CHR ''x'') [0..<51]"

definition playlist_static :: playlist where
  "playlist_static =
     playlist_smart\<lparr>playlist_label := label_smart\<lparr>label_tracks := ids51, smartCriteria := None\<rparr>\<rparr>"

text \<open>
  A service with a fixed feed of favourites: it answers a favourites request with the
  window of the feed, an artist lookup with an artist for each id, and grants tokens and
  accepts every other call as before.
\<close>

definition env_fav :: "item list \<Rightarrow> bool env" where
  "env_fav feed =
     env0\<lparr>network := (\<lambda>n r. case req_url r of
        ApiToken \<Rightarrow> Response True 200 (Some (TokenJson ''new'' 3600))
      | MeTracks offset limit \<Rightarrow>
          Response True 200 (Some (TracksJson (take limit (drop offset feed))))
      | ArtistsByIds ids \<Rightarrow>
          Response True 200 (Some (ArtistsJson
            (map (\<lambda>i. \<lparr>artist_id = i, artist_name = i, genres = []\<rparr>) ids)))
      | _ \<Rightarrow> Response True 200 (Some OtherJson))\<rparr>"

text \<open>
  The \<open>n\<close>-th favourite of the example feeds: a track of the artist \<open>ar\<close> on the album
  \<open>a\<close>, which has no image.
\<close>

definition item_n :: "nat \<Rightarrow> item" where
  "item_n n =
     \<lparr>added_at = ''2022-10-02'',
      item_track = \<lparr>sp_album = \<lparr>sp_album_id = ''a'', images = [], sp_album_name = ''A B'',
                                 release_date = ''2020''\<rparr>,
                    sp_artists = [''ar''], sp_explicit = False,
                    sp_id = replicate (Suc n) CHR ''x'', sp_name = ''n''\<rparr>\<rparr>"

definition feed3 :: "item list" where
  "feed3 = map item_n [0..<3]"

definition feed30 :: "item list" where
  "feed30 = map item_n [0..<30]"

text \<open>A store that holds the favourite number 7 of that feed already, and nothing else.\<close>

definition state4 :: state where
  "state4 = state1\<lparr>db_tracks := [track_data 1 (item_n 7)]\<rparr>"



section \<open>Token refresh\<close>

lemmas ex_defs = env0_def state0_def user0_def user1_def state1_def req0_def

lemmas fetch_defs = spotifyFetch_def refreshAccessToken_def fetch_def now_def user_update_def
  Let_def log_write_def

lemma refresh_run0:
  "refreshAccessToken env0 state0 =
     (Inr (), state0\<lparr>this_user := user0\<lparr>accessToken := ''new'', accessTokenExpiresAt := 3541000\<rparr>,
        db_users := [user0\<lparr>accessToken := ''new'', accessTokenExpiresAt := 3541000,
                            user_updatedAt := 1001\<rparr>],
        db_log := [UpdateUser 1], sent := [refresh_request env0 user0], ticks := 2\<rparr>)"
  by (simp add: fetch_defs ex_defs refresh_request_def)

text \<open>
  C9, as amended. Whatever \<^verbatim>\<open>refreshAccessToken\<close> returns, the album, artist and track
  tables are as before. When it fails, the user object, the user table and the write log
  are as before too. When it succeeds, the token endpoint has answered with a token and a
  validity; the user object differs from the old one in \<open>accessToken\<close> and
  \<open>accessTokenExpiresAt\<close> only; the store has executed one write, the update of the row
  with the user's key; and that row differs from the old one in these two fields and in
  the \<open>updatedAt\<close> stamp that the store sets on every update. The refresh token, the
  Spotify id and every other field and row are unchanged.
\<close>

theorem refreshAccessToken_frame:
  assumes "refreshAccessToken e s = (r, s')"
  shows "db_albums s' = db_albums s \<and> db_artists s' = db_artists s \<and> db_tracks s' = db_tracks s \<and>
    (case r of
       Inl err \<Rightarrow> this_user s' = this_user s \<and> db_users s' = db_users s \<and> db_log s' = db_log s
     | Inr u \<Rightarrow>
        (\<exists>ok status tok expiresIn.
           network e (length (sent s)) (refresh_request e (this_user s))
             = Response ok status (Some (TokenJson tok expiresIn)) \<and>
           this_user s' = (this_user s)\<lparr>accessToken := tok,
              accessTokenExpiresAt := clock e (ticks s) + (expiresIn - 60) * 1000\<rparr> \<and>
           db_users s' = map (\<lambda>u. if user_id u = user_id (this_user s)
                 then u\<lparr>accessToken := tok,
                        accessTokenExpiresAt := clock e (ticks s) + (expiresIn - 60) * 1000,
                        user_updatedAt := clock e (Suc (ticks s))\<rparr>
                 else u) (db_users s) \<and>
           db_log s' = db_log s @ [UpdateUser (user_id (this_user s))]))"
  using assms
  by (auto simp: refreshAccessToken_def fetch_def now_def user_update_def Let_def
      split: response.splits option.splits sum.splits prod.splits if_splits json.splits
      elim!: TokenResponse_parse.elims)

theorem refreshAccessToken_frame_witness:
  "\<exists>s'. refreshAccessToken env0 state0 = (Inr (), s') \<and>
     this_user s' = user0\<lparr>accessToken := ''new'', accessTokenExpiresAt := 3541000\<rparr> \<and>
     db_users s' = [user0\<lparr>accessToken := ''new'', accessTokenExpiresAt := 3541000,
                          user_updatedAt := 1001\<rparr>] \<and>
     db_log s' = [UpdateUser 1] \<and> db_albums s' = [] \<and> db_artists s' = [] \<and> db_tracks s' = []"
  using refreshAccessToken_frame [OF refresh_run0] refresh_run0
  by (simp add: ex_defs)

text \<open>
  C9 as first stated fails: the refresh changes a third field of the persisted row, its
  \<open>updatedAt\<close> stamp, here from 0 to 1001.
\<close>

theorem refreshAccessToken_updatedAt_counterexample:
  "user_updatedAt (hd (db_users (snd (refreshAccessToken env0 state0)))) = 1001 \<and>
   user_updatedAt (hd (db_users state0)) = 0"
  by (simp add: refresh_run0) (simp add: ex_defs)



section \<open>The calls of the playlist push\<close>

lemmas pl_defs = track1_def track2_def state2_def state3_def label_smart_def playlist_smart_def
  playlist_invalid_def playlist_stale_def playlist_static_def

lemma chunk_Nil: "chunk [] n = []"
  by (simp add: chunk.simps)

lemma chunk_Cons: "0 < n \<Longrightarrow> xs \<noteq> [] \<Longrightarrow> chunk xs n = take n xs # chunk (drop n xs) n"
  by (subst chunk.simps) simp

lemma chunk_short: "0 < n \<Longrightarrow> xs \<noteq> [] \<Longrightarrow> length xs \<le> n \<Longrightarrow> chunk xs n = [xs]"
  by (simp add: chunk_Cons chunk_Nil)

lemma concat_chunk: "0 < n \<Longrightarrow> concat (chunk xs n) = xs"
proof (induction xs n rule: chunk.induct)
  case (1 array n)
  show ?case
  proof (cases "array = []")
    case True
    then show ?thesis by (simp add: chunk_Nil)
  next
    case False
    with 1 show ?thesis by (simp add: chunk_Cons)
  qed
qed

lemma spotifyFetch_api_calls:
  assumes "spotifyFetch e req s = (Inr body, s')" and "req_url req \<noteq> ApiToken"
  shows "api_calls s' = api_calls s @ [(req_method req, req_url req, req_body req)]"
  using assms
  by (auto simp: fetch_defs api_calls_def refresh_request_def
      split: response.splits option.splits sum.splits prod.splits if_splits json.splits
      elim!: TokenResponse_parse.elims)

lemma upload_appends:
  assumes "upload e pid (Suc i) cs s = (Inr u, s')"
  shows "api_calls s' = api_calls s
           @ map (\<lambda>c. (POST, PlaylistTracksUris pid (map track_uri c), NoBody)) cs"
  using assms
proof (induction cs arbitrary: i s)
  case Nil
  then show ?case by simp
next
  case (Cons c cs)
  from Cons.prems obtain body s1 where
    f: "spotifyFetch e (upload_request pid (Suc i) c) s = (Inr body, s1)" and
    r: "upload e pid (Suc (Suc i)) cs s1 = (Inr u, s')"
    by (auto split: prod.splits sum.splits)
  from spotifyFetch_api_calls [OF f] have
    "api_calls s1 = api_calls s @ [(POST, PlaylistTracksUris pid (map track_uri c), NoBody)]"
    by (simp add: upload_request_def)
  with Cons.IH [OF r] show ?case by simp
qed

lemma upload_replace_then_append:
  assumes "upload e pid 0 (c # cs) s = (Inr u, s')"
  shows "api_calls s' = api_calls s
           @ (PUT, PlaylistTracksUris pid (map track_uri c), NoBody)
           # map (\<lambda>c. (POST, PlaylistTracksUris pid (map track_uri c), NoBody)) cs"
proof -
  from assms obtain body s1 where
    f: "spotifyFetch e (upload_request pid 0 c) s = (Inr body, s1)" and
    r: "upload e pid (Suc 0) cs s1 = (Inr u, s')"
    by (auto split: prod.splits sum.splits)
  from spotifyFetch_api_calls [OF f] have
    "api_calls s1 = api_calls s @ [(PUT, PlaylistTracksUris pid (map track_uri c), NoBody)]"
    by (simp add: upload_request_def)
  with upload_appends [OF r] show ?thesis by simp
qed

lemma trackSpotifyIds_api_calls: "api_calls (snd (trackSpotifyIds e pl s)) = api_calls s"
  by (simp add: trackSpotifyIds_def api_calls_def log_write_def split: option.splits sum.splits)

lemma pushPlaylist_calls:
  assumes "pushPlaylist e pl s = (Inr u, s')"
  shows "api_calls s' = api_calls s
     @ (let ids = fst (trackSpotifyIds e pl s);
            cs = chunk (if length ids > 0 then ids else [dummyTrackSpotifyId]) 50
        in (PUT, PlaylistTracksUris (playlist_spotifyId pl) (map track_uri (hd cs)), NoBody)
           # map (\<lambda>c. (POST, PlaylistTracksUris (playlist_spotifyId pl) (map track_uri c), NoBody)) (tl cs))
     @ (if length (label_tracks (playlist_label pl)) = 0
        then [(DELETE, PlaylistTracks (playlist_spotifyId pl), RemoveTracks [track_uri dummyTrackSpotifyId])]
        else [])"
proof -
  obtain ids s1 where t: "trackSpotifyIds e pl s = (ids, s1)" by (cases "trackSpotifyIds e pl s")
  define xs where "xs = (if length ids > 0 then ids else [dummyTrackSpotifyId])"
  have ne: "xs \<noteq> []" by (auto simp: xs_def)
  then have ch: "chunk xs 50 = take 50 xs # chunk (drop 50 xs) 50" by (simp add: chunk_Cons)
  from assms t obtain s2 where
    up: "upload e (playlist_spotifyId pl) 0 (chunk xs 50) s1 = (Inr (), s2)"
    by (auto simp: pushPlaylist_def xs_def split: prod.splits sum.splits if_splits)
  have s1: "api_calls s1 = api_calls s" using trackSpotifyIds_api_calls [of e pl s] t by simp
  from up ch have "api_calls s2 = api_calls s1
      @ (PUT, PlaylistTracksUris (playlist_spotifyId pl) (map track_uri (take 50 xs)), NoBody)
      # map (\<lambda>c. (POST, PlaylistTracksUris (playlist_spotifyId pl) (map track_uri c), NoBody))
          (chunk (drop 50 xs) 50)"
    using upload_replace_then_append [of e "playlist_spotifyId pl" "take 50 xs" "chunk (drop 50 xs) 50" s1 "()" s2]
    by simp
  moreover have "api_calls s' = api_calls s2 @ (if length (label_tracks (playlist_label pl)) = 0
        then [(DELETE, PlaylistTracks (playlist_spotifyId pl), RemoveTracks [track_uri dummyTrackSpotifyId])]
        else [])"
    using assms t up
    by (auto simp: pushPlaylist_def xs_def remove_request_def split: prod.splits sum.splits if_splits
        dest!: spotifyFetch_api_calls)
  ultimately show ?thesis using t s1 ch by (simp add: xs_def Let_def)
qed

lemma chunk_length:
  "0 < n \<Longrightarrow> c \<in> set (chunk xs n) \<Longrightarrow> 0 < length c \<and> length c \<le> n"
proof (induction xs n rule: chunk.induct)
  case (1 array n)
  show ?case
  proof (cases "array = []")
    case True
    with 1 show ?thesis by (simp add: chunk_Nil)
  next
    case False
    with 1 show ?thesis by (auto simp: chunk_Cons)
  qed
qed

text \<open>
  With no compiled filter (\<^verbatim>\<open>generatePrismaFilter\<close> returns \<^verbatim>\<open>null\<close>), the query of a smart
  label selects every track of the user, and nothing is logged.
\<close>

lemma trackSpotifyIds_null_filter:
  assumes "smartCriteria (playlist_label pl) = Some criteria"
      and "generatePrismaFilter e criteria = None"
  shows "trackSpotifyIds e pl s =
           (map track_spotifyId
              (filter (\<lambda>t. track_userId t = user_id (this_user s)) (db_tracks s)), s)"
  using assms by (simp add: trackSpotifyIds_def track_findMany_def)

text \<open>
  C5. When the push of a playlist succeeds and the label resolves to a non-empty list of
  ids, the slices \<^verbatim>\<open>chunk(ids, 50)\<close> make up the list again and hold between 1 and 50 ids
  each; the replace and append calls of the push are one \<^verbatim>\<open>PUT\<close> with the first slice,
  then one \<^verbatim>\<open>POST\<close> for every further slice, in order. A list of 50 ids gives the one
  \<^verbatim>\<open>PUT\<close> with all of them and no \<^verbatim>\<open>POST\<close>; a list of 51 gives the \<^verbatim>\<open>PUT\<close> with the first 50
  and one \<^verbatim>\<open>POST\<close> with the last.
\<close>

theorem pushPlaylist_chunks:
  assumes "pushPlaylist e pl s = (Inr u, s')"
      and "fst (trackSpotifyIds e pl s) = ids" and "ids \<noteq> []"
  shows "concat (chunk ids 50) = ids \<and>
         (\<forall>c \<in> set (chunk ids 50). 0 < length c \<and> length c \<le> 50) \<and>
         filter (\<lambda>c. fst c \<noteq> DELETE) (drop (length (api_calls s)) (api_calls s')) =
           (case chunk ids 50 of
              [] \<Rightarrow> []
            | first # rest \<Rightarrow>
                (PUT, PlaylistTracksUris (playlist_spotifyId pl) (map track_uri first), NoBody)
                # map (\<lambda>c. (POST, PlaylistTracksUris (playlist_spotifyId pl) (map track_uri c),
                             NoBody)) rest) \<and>
         (length ids = 50 \<longrightarrow>
            filter (\<lambda>c. fst c \<noteq> DELETE) (drop (length (api_calls s)) (api_calls s')) =
              [(PUT, PlaylistTracksUris (playlist_spotifyId pl) (map track_uri ids), NoBody)]) \<and>
         (length ids = 51 \<longrightarrow>
            filter (\<lambda>c. fst c \<noteq> DELETE) (drop (length (api_calls s)) (api_calls s')) =
              [(PUT, PlaylistTracksUris (playlist_spotifyId pl) (map track_uri (take 50 ids)), NoBody),
               (POST, PlaylistTracksUris (playlist_spotifyId pl) [track_uri (last ids)], NoBody)])"
proof -
  let ?new = "filter (\<lambda>c. fst c \<noteq> DELETE) (drop (length (api_calls s)) (api_calls s'))"
  let ?put = "\<lambda>c. (PUT, PlaylistTracksUris (playlist_spotifyId pl) (map track_uri c), NoBody)"
  let ?post = "\<lambda>c. (POST, PlaylistTracksUris (playlist_spotifyId pl) (map track_uri c), NoBody)"
  have ch: "chunk ids 50 = take 50 ids # chunk (drop 50 ids) 50"
    using assms(3) by (simp add: chunk_Cons)
  have calls: "api_calls s' = api_calls s
      @ (?put (take 50 ids) # map ?post (chunk (drop 50 ids) 50))
      @ (if length (label_tracks (playlist_label pl)) = 0
         then [(DELETE, PlaylistTracks (playlist_spotifyId pl),
                RemoveTracks [track_uri dummyTrackSpotifyId])]
         else [])"
    using pushPlaylist_calls [OF assms(1)] assms(2,3) ch by (simp add: Let_def)
  have new: "?new = ?put (take 50 ids) # map ?post (chunk (drop 50 ids) 50)"
    by (simp add: calls filter_map comp_def)
  have cat: "concat (chunk ids 50) = ids"
    by (simp add: concat_chunk)
  have parts: "\<forall>c \<in> set (chunk ids 50). 0 < length c \<and> length c \<le> 50"
  proof
    fix c assume "c \<in> set (chunk ids 50)"
    then show "0 < length c \<and> length c \<le> 50"
      using chunk_length [of 50 c ids] by simp
  qed
  have general: "?new = (case chunk ids 50 of [] \<Rightarrow> [] | first # rest \<Rightarrow> ?put first # map ?post rest)"
    by (simp add: new ch)
  have c50: "?new = [?put ids]" if "length ids = 50"
    using that by (simp add: new chunk_Nil)
  have c51: "?new = [?put (take 50 ids),
      (POST, PlaylistTracksUris (playlist_spotifyId pl) [track_uri (last ids)], NoBody)]"
    if len: "length ids = 51"
  proof -
    from len have "length (drop 50 ids) = 1" by simp
    then obtain x where x: "drop 50 ids = [x]"
      by (cases "drop 50 ids") simp_all
    have "ids = take 50 ids @ drop 50 ids" by simp
    then have "last ids = last (take 50 ids @ [x])" using x by simp
    then have "last ids = x" by simp
    with x have d: "drop 50 ids = [last ids]" by simp
    have "chunk [last ids] 50 = [[last ids]]" by (simp add: chunk_short)
    then show ?thesis by (simp add: new d)
  qed
  from cat parts general c50 c51 show ?thesis by blast
qed

lemma length_ids51: "length ids51 = 51"
  by (simp add: ids51_def)

lemma ids51_ne: "ids51 \<noteq> []"
  using length_ids51 by auto

lemma static_ids: "fst (trackSpotifyIds env0 playlist_static state2) = ids51"
  by (simp add: trackSpotifyIds_def playlist_static_def)

lemma static_run: "fst (pushPlaylist env0 playlist_static state2) = Inr ()"
  by code_simp

theorem pushPlaylist_chunks_witness:
  "length ids51 = 51 \<and>
   filter (\<lambda>c. fst c \<noteq> DELETE)
     (drop (length (api_calls state2)) (api_calls (snd (pushPlaylist env0 playlist_static state2)))) =
     [(PUT, PlaylistTracksUris (playlist_spotifyId playlist_static)
              (map track_uri (take 50 ids51)), NoBody),
      (POST, PlaylistTracksUris (playlist_spotifyId playlist_static)
              [track_uri (last ids51)], NoBody)]"
proof -
  have run: "pushPlaylist env0 playlist_static state2
               = (Inr (), snd (pushPlaylist env0 playlist_static state2))"
    using static_run by (simp add: prod_eq_iff)
  from pushPlaylist_chunks [OF run static_ids ids51_ne] length_ids51
  show ?thesis by blast
qed

text \<open>
  C1, evaluated. The removal of the placeholder is decided on the stored relation of the
  label, not on the resolved list. A smart label with an empty stored relation that
  resolves to the track \<open>t1\<close> gets the replace call with \<open>t1\<close> and then a removal call
  for the placeholder; a smart label with a track left in its stored relation that
  resolves to nothing gets the replace call with the placeholder and no removal call.
\<close>

theorem pushPlaylist_removal_ignores_resolved_set:
  "fst (trackSpotifyIds env0 playlist_smart state2) = [''t1''] \<and>
   api_calls (snd (pushPlaylist env0 playlist_smart state2)) =
     [(PUT, PlaylistTracksUris ''p'' [''spotify:track:t1''], NoBody),
      (DELETE, PlaylistTracks ''p'', RemoveTracks [''spotify:track:41MCdlvXOl62B7Kv86Bb1v''])] \<and>
   fst (trackSpotifyIds env0 playlist_stale state3) = [] \<and>
   api_calls (snd (pushPlaylist env0 playlist_stale state3)) =
     [(PUT, PlaylistTracksUris ''p'' [''spotify:track:41MCdlvXOl62B7Kv86Bb1v''], NoBody)]"
  by code_simp

text \<open>
  C2, evaluated. The criteria \<open>explicit = \<close> do not compile
  (\<^verbatim>\<open>generatePrismaFilter\<close> returns \<^verbatim>\<open>null\<close>); the label resolves to both tracks of the user,
  not to the empty list; both are uploaded; and the log holds the four lines of the two
  requests and no error.
\<close>

theorem pushPlaylist_invalid_criteria_selects_all:
  "generatePrismaFilter env0 ''explicit = '' = None \<and>
   smartCriteria (playlist_label playlist_invalid) = Some ''explicit = '' \<and>
   trackSpotifyIds env0 playlist_invalid state2 = ([''t1'', ''t2''], state2) \<and>
   api_calls (snd (pushPlaylist env0 playlist_invalid state2)) =
     [(PUT, PlaylistTracksUris ''p'' [''spotify:track:t1'', ''spotify:track:t2''], NoBody),
      (DELETE, PlaylistTracks ''p'', RemoveTracks [''spotify:track:41MCdlvXOl62B7Kv86Bb1v''])] \<and>
   logged (snd (pushPlaylist env0 playlist_invalid state2)) =
     [InfoRequest PUT (PlaylistTracksUris ''p'' [''spotify:track:t1'', ''spotify:track:t2'']),
      InfoStatus 200, InfoRequest DELETE (PlaylistTracks ''p''), InfoStatus 200]"
  by code_simp

text \<open>
  What a smart label resolves to does not depend on its stored relation: the list of ids
  is the same whatever the relation holds.
\<close>

lemma trackSpotifyIds_smart_ignores_relation:
  assumes "smartCriteria (playlist_label pl) \<noteq> None"
  shows "trackSpotifyIds e (pl\<lparr>playlist_label := (playlist_label pl)\<lparr>label_tracks := ts\<rparr>\<rparr>) s
           = trackSpotifyIds e pl s"
  using assms by (auto simp: trackSpotifyIds_def split: option.splits)

text \<open>
  C3, evaluated. Two playlists of the same smart label that differ in the stored relation
  of the label only: with the empty relation the push makes a replace and a removal
  call, with a track in the relation the replace call only.
\<close>

theorem pushPlaylist_consults_relation_of_smart_label:
  "smartCriteria (playlist_label playlist_smart) = Some ''explicit = false'' \<and>
   playlist_stale =
     playlist_smart\<lparr>playlist_label := (playlist_label playlist_smart)\<lparr>label_tracks := [''t2'']\<rparr>\<rparr> \<and>
   map fst (api_calls (snd (pushPlaylist env0 playlist_smart state2))) = [PUT, DELETE] \<and>
   map fst (api_calls (snd (pushPlaylist env0 playlist_stale state2))) = [PUT]"
  by code_simp

section \<open>The criteria compiler's entry points\<close>



section \<open>The pull of the favourites\<close>

subsection \<open>What a request leaves alone\<close>

lemma spotifyFetch_tables:
  assumes "spotifyFetch e req s = (r, s')"
  shows "db_albums s' = db_albums s \<and> db_artists s' = db_artists s \<and> db_tracks s' = db_tracks s
         \<and> user_id (this_user s') = user_id (this_user s)
         \<and> map user_id (db_users s') = map user_id (db_users s)"
  using assms
  by (auto simp: fetch_defs comp_def
      split: response.splits option.splits sum.splits prod.splits if_splits json.splits
      elim!: TokenResponse_parse.elims)

lemma spotifyFetch_answer:
  assumes "spotifyFetch e req s = (Inr body, s')"
  shows "\<exists>n r status. req_url r = req_url req \<and> network e n r = Response True status (Some body)"
  using assms
  apply (auto simp: fetch_defs
      split: response.splits option.splits sum.splits prod.splits if_splits json.splits
      elim!: TokenResponse_parse.elims)
   apply (metis (no_types, lifting) request.select_convs(2) request.surjective request.update_convs(4))+
  done

lemma spotifyFetch_no_favorites:
  assumes "spotifyFetch e req s = (r, s')" and "\<not> is_MeTracks (req_url req)"
  shows "favorites_fetches s' = favorites_fetches s"
  using assms
  by (auto simp: fetch_defs favorites_fetches_def refresh_request_def
      split: response.splits option.splits sum.splits prod.splits if_splits json.splits
      elim!: TokenResponse_parse.elims)

lemma spotifyFetch_favorites:
  assumes "spotifyFetch e req s = (Inr body, s')" and "is_MeTracks (req_url req)"
  shows "favorites_fetches s' = favorites_fetches s @ [req_url req]"
  using assms
  by (auto simp: fetch_defs favorites_fetches_def refresh_request_def
      split: response.splits option.splits sum.splits prod.splits if_splits json.splits
      elim!: TokenResponse_parse.elims)

subsection \<open>The artist lookup\<close>

lemma lookup_chunks_frame:
  assumes "lookup_chunks e cs acc s = (r, s')"
  shows "db_albums s' = db_albums s \<and> db_artists s' = db_artists s \<and> db_tracks s' = db_tracks s
         \<and> user_id (this_user s') = user_id (this_user s)
         \<and> map user_id (db_users s') = map user_id (db_users s)
         \<and> favorites_fetches s' = favorites_fetches s"
  using assms
proof (induction cs arbitrary: acc s)
  case Nil
  then show ?case by simp
next
  case (Cons c cs)
  obtain r1 s1 where f: "spotifyFetch e (get_request (ArtistsByIds c)) s = (r1, s1)"
    by (cases "spotifyFetch e (get_request (ArtistsByIds c)) s")
  note t = spotifyFetch_tables [OF f]
  have nf: "favorites_fetches s1 = favorites_fetches s"
    using spotifyFetch_no_favorites [OF f] by (simp add: get_request_def)
  show ?case
  proof (cases r1)
    case (Inl err)
    with Cons.prems f t nf show ?thesis by auto
  next
    case (Inr body)
    show ?thesis
    proof (cases "ArtistsResponse_parse body")
      case (Inl err)
      with Cons.prems f Inr t nf show ?thesis by auto
    next
      case (Inr artists)
      with Cons.prems f \<open>r1 = Inr body\<close>
      have "lookup_chunks e cs (acc @ artists) s1 = (r, s')" by simp
      from Cons.IH [OF this] t nf show ?thesis by simp
    qed
  qed
qed

lemma lookup_chunks_ids:
  assumes "lookup_chunks e cs acc s = (Inr artists, s')" and "serves_artists e"
  shows "map artist_id artists = map artist_id acc @ concat cs"
  using assms(1)
proof (induction cs arbitrary: acc s)
  case Nil
  then show ?case by simp
next
  case (Cons c cs)
  from Cons.prems obtain body s1 as where
    f: "spotifyFetch e (get_request (ArtistsByIds c)) s = (Inr body, s1)" and
    p: "ArtistsResponse_parse body = Inr as" and
    r: "lookup_chunks e cs (acc @ as) s1 = (Inr artists, s')"
    by (auto split: prod.splits sum.splits)
  from p have body: "body = ArtistsJson as"
    by (cases body) simp_all
  from spotifyFetch_answer [OF f] body obtain n rq status where
    "req_url rq = ArtistsByIds c" "network e n rq = Response True status (Some (ArtistsJson as))"
    by (auto simp: get_request_def)
  with assms(2) have "map artist_id as = c"
    unfolding serves_artists_def by blast
  with Cons.IH [OF r] show ?case by simp
qed

lemma lookupArtists_ids:
  assumes "lookupArtists e ids s = (Inr artists, s')" and "serves_artists e"
  shows "map artist_id artists = ids"
  using lookup_chunks_ids [OF assms(1) [unfolded lookupArtists_def] assms(2)]
  by (simp add: concat_chunk)

lemma lookupArtists_none: "lookupArtists e [] s = (Inr [], s)"
  by (simp add: lookupArtists_def chunk_Nil)

lemma lookupArtists_frame:
  assumes "lookupArtists e ids s = (r, s')"
  shows "db_albums s' = db_albums s \<and> db_artists s' = db_artists s \<and> db_tracks s' = db_tracks s
         \<and> user_id (this_user s') = user_id (this_user s)
         \<and> map user_id (db_users s') = map user_id (db_users s)
         \<and> favorites_fetches s' = favorites_fetches s"
  using lookup_chunks_frame [OF assms [unfolded lookupArtists_def]] .

subsection \<open>lodash\<close>

lemma uniq_seen_keys:
  "set (map key (uniq_seen seen key xs)) \<union> set seen = set (map key xs) \<union> set seen"
proof (induction xs arbitrary: seen)
  case Nil
  then show ?case by simp
next
  case (Cons a xs)
  show ?case
  proof (cases "key a \<in> set seen")
    case True
    with Cons.IH [of seen] show ?thesis by auto
  next
    case False
    have "set (map key (uniq_seen seen key (a # xs))) \<union> set seen
            = set (map key (uniq_seen (key a # seen) key xs)) \<union> set (key a # seen)"
      using False by simp
    also have "\<dots> = set (map key xs) \<union> set (key a # seen)"
      by (rule Cons.IH)
    finally show ?thesis by simp
  qed
qed

lemma uniqBy_keys: "set (map key (uniqBy xs key)) = set (map key xs)"
  using uniq_seen_keys [of key "[]" xs] by (simp add: uniqBy_def)

lemma uniq_set: "set (uniq xs) = set xs"
  using uniqBy_keys [of "\<lambda>x. x" xs] by (simp add: uniq_def)

lemma uniq_seen_subset: "set (uniq_seen seen key xs) \<subseteq> set xs"
  by (induction xs arbitrary: seen) auto

subsection \<open>The writes\<close>

lemma insert_skipDuplicates_prefix:
  "\<exists>new. insert_skipDuplicates rows data = rows @ new \<and> set new \<subseteq> set data"
proof (induction data arbitrary: rows)
  case Nil
  then show ?case by simp
next
  case (Cons a data)
  show ?case
  proof (cases "album_id a \<in> set (map album_id rows)")
    case True
    with Cons.IH [of rows] show ?thesis by auto
  next
    case False
    from Cons.IH [of "rows @ [a]"] obtain new where
      "insert_skipDuplicates (rows @ [a]) data = (rows @ [a]) @ new" "set new \<subseteq> set data"
      by blast
    with False show ?thesis by auto
  qed
qed

lemma insert_skipDuplicates_ids:
  "set (map album_id (insert_skipDuplicates rows data))
     = set (map album_id rows) \<union> set (map album_id data)"
  by (induction data arbitrary: rows) auto

lemma insert_skipDuplicates_noop:
  "set (map album_id data) \<subseteq> set (map album_id rows) \<Longrightarrow> insert_skipDuplicates rows data = rows"
  by (induction data arbitrary: rows) auto

subsection \<open>The store only grows\<close>

lemma grows_refl: "grows s s"
  by (simp add: grows_def)

lemma grows_trans: "grows s s1 \<Longrightarrow> grows s1 s2 \<Longrightarrow> grows s s2"
  by (auto simp: grows_def)

lemma grows_stored_ids: "grows s s' \<Longrightarrow> stored_ids s \<subseteq> stored_ids s'"
  by (auto simp: grows_def stored_ids_def prefix_def)

lemma page_stored_grows: "page_stored items s \<Longrightarrow> grows s s' \<Longrightarrow> page_stored items s'"
  using grows_stored_ids [of s s']
  by (auto simp: page_stored_def grows_def prefix_def)

lemma spotifyFetch_grows: "spotifyFetch e req s = (r, s') \<Longrightarrow> grows s s'"
  using spotifyFetch_tables [of e req s r s'] by (simp add: grows_def)

lemma lookupArtists_grows: "lookupArtists e ids s = (r, s') \<Longrightarrow> grows s s'"
  using lookupArtists_frame [of e ids s r s'] by (simp add: grows_def)

lemma album_createMany_grows: "grows s (album_createMany data s)"
  using insert_skipDuplicates_prefix [of "db_albums s" data]
  by (auto simp: grows_def album_createMany_def)

lemma artist_createMany_grows: "artist_createMany data s = (r, s') \<Longrightarrow> grows s s'"
  by (auto simp: grows_def artist_createMany_def split: if_splits)

lemma track_create_grows: "track_create t s = (r, s') \<Longrightarrow> grows s s'"
  by (auto simp: grows_def track_create_def split: if_splits)

lemma create_all_grows: "create_all ts s = (r, s') \<Longrightarrow> grows s s'"
proof (induction ts arbitrary: s r s')
  case Nil
  then show ?case by (simp add: grows_refl)
next
  case (Cons t ts)
  obtain r1 s1 where a: "track_create t s = (r1, s1)" by (cases "track_create t s")
  obtain rs s2 where b: "create_all ts s1 = (rs, s2)" by (cases "create_all ts s1")
  from Cons.prems a b have "s' = s2" by simp
  with track_create_grows [OF a] Cons.IH [OF b] show ?case
    by (auto intro: grows_trans)
qed

lemma create_all_sent: "create_all ts s = (r, s') \<Longrightarrow> sent s' = sent s"
proof (induction ts arbitrary: s r s')
  case Nil
  then show ?case by simp
next
  case (Cons t ts)
  obtain r1 s1 where a: "track_create t s = (r1, s1)" by (cases "track_create t s")
  obtain rs s2 where b: "create_all ts s1 = (rs, s2)" by (cases "create_all ts s1")
  from Cons.prems a b have "s' = s2" by simp
  moreover from a have "sent s1 = sent s" by (auto simp: track_create_def split: if_splits)
  ultimately show ?case using Cons.IH [OF b] by simp
qed

lemma create_all_created:
  assumes "create_all ts s = (None, s')"
  shows "set ts \<subseteq> set (db_tracks s')"
  using assms
proof (induction ts arbitrary: s s')
  case Nil
  then show ?case by simp
next
  case (Cons t ts)
  obtain r1 s1 where a: "track_create t s = (r1, s1)" by (cases "track_create t s")
  obtain rs s2 where b: "create_all ts s1 = (rs, s2)" by (cases "create_all ts s1")
  from Cons.prems a b have s2: "s' = s2" and rs: "rs = None" and r1: "\<not> isl r1"
    by (auto split: sum.splits)
  from a r1 have "t \<in> set (db_tracks s1)"
    by (auto simp: track_create_def split: if_splits)
  moreover from create_all_grows [OF b] have "set (db_tracks s1) \<subseteq> set (db_tracks s2)"
    by (auto simp: grows_def prefix_def)
  ultimately show ?case using Cons.IH [of s1] b rs s2 by auto
qed

subsection \<open>A page stored\<close>

lemma storePage_cases:
  assumes "storePage e items s = (r, s')"
  obtains (lookup) err where
      "lookupArtists e (difference (page_artist_ids items)
          (map artist_id (filter (\<lambda>a. artist_id a \<in> set (page_artist_ids items)) (db_artists s)))) s
         = (Inl err, s')" "r = Inl err"
  | (artists) newArtists s1 err where
      "lookupArtists e (difference (page_artist_ids items)
          (map artist_id (filter (\<lambda>a. artist_id a \<in> set (page_artist_ids items)) (db_artists s)))) s
         = (Inr newArtists, s1)"
      "artist_createMany newArtists (album_createMany (uniqBy (map album_data items) album_id) s1)
         = (Inl err, s')" "r = Inl err"
  | (tracks) newArtists s1 s2 res where
      "lookupArtists e (difference (page_artist_ids items)
          (map artist_id (filter (\<lambda>a. artist_id a \<in> set (page_artist_ids items)) (db_artists s)))) s
         = (Inr newArtists, s1)"
      "artist_createMany newArtists (album_createMany (uniqBy (map album_data items) album_id) s1)
         = (Inr (), s2)"
      "create_all (missing_of (user_id (this_user s2)) items s2) s2 = (res, s')"
      "r = (case res of Some err \<Rightarrow> Inl err
            | None \<Rightarrow> Inr (length (missing_of (user_id (this_user s2)) items s2)))"
  using assms
  unfolding storePage_def page_artist_ids_def missing_of_def Let_def
  by (auto split: prod.splits sum.splits option.splits)

lemma storePage_grows:
  assumes "storePage e items s = (r, s')"
  shows "grows s s' \<and> favorites_fetches s' = favorites_fetches s"
  using assms
proof (cases rule: storePage_cases)
  case (lookup err)
  then show ?thesis
    using lookupArtists_grows lookupArtists_frame by blast
next
  case (artists newArtists s1 err)
  from artists(2) have "s' = album_createMany (uniqBy (map album_data items) album_id) s1"
    by (auto simp: artist_createMany_def split: if_splits)
  then have "grows s1 s'" "sent s' = sent s1"
    using album_createMany_grows by (auto simp: album_createMany_def)
  with artists(1) show ?thesis
    using lookupArtists_grows [OF artists(1)] lookupArtists_frame [OF artists(1)]
    by (auto intro: grows_trans simp: favorites_fetches_def)
next
  case (tracks newArtists s1 s2 res)
  let ?sa = "album_createMany (uniqBy (map album_data items) album_id) s1"
  have a: "grows s1 ?sa" "sent ?sa = sent s1"
    using album_createMany_grows by (auto simp: album_createMany_def)
  have b: "grows ?sa s2" "sent s2 = sent ?sa"
    using artist_createMany_grows [OF tracks(2)] tracks(2)
    by (auto simp: artist_createMany_def split: if_splits)
  have c: "grows s2 s'" "sent s' = sent s2"
    using create_all_grows [OF tracks(3)] create_all_sent [OF tracks(3)] by auto
  from lookupArtists_grows [OF tracks(1)] a(1) b(1) c(1) have "grows s s'"
    by (blast intro: grows_trans)
  moreover have "favorites_fetches s' = favorites_fetches s"
    using lookupArtists_frame [OF tracks(1)] a(2) b(2) c(2) by (simp add: favorites_fetches_def)
  ultimately show ?thesis by simp
qed

lemma missing_of_length:
  "length (missing_of uid items s)
     = length (filter (\<lambda>it. sp_id (item_track it) \<notin>
          set (map track_spotifyId (filter (\<lambda>t. track_userId t = uid) (db_tracks s)))) items)"
proof -
  have "length (missing_of uid items s)
      = length (filter (\<lambda>it. track_spotifyId (track_data uid it) \<notin>
          set (map track_spotifyId (filter (\<lambda>t. track_userId t = uid
                  \<and> track_spotifyId t \<in> set (map track_spotifyId (map (track_data uid) items)))
          (db_tracks s)))) items)"
    by (simp add: missing_of_def differenceBy_def filter_map comp_def)
  also have "\<dots> = length (filter (\<lambda>it. sp_id (item_track it) \<notin>
          set (map track_spotifyId (filter (\<lambda>t. track_userId t = uid) (db_tracks s)))) items)"
  proof (rule arg_cong [where f = length], rule filter_cong)
    fix it assume it: "it \<in> set items"
    let ?page = "set (map track_spotifyId (map (track_data uid) items))"
    have "sp_id (item_track it) \<in> ?page"
      using it by (force simp: track_data_def)
    then have "(sp_id (item_track it) \<in> set (map track_spotifyId
                  (filter (\<lambda>t. track_userId t = uid \<and> track_spotifyId t \<in> ?page) (db_tracks s))))
             = (sp_id (item_track it) \<in> set (map track_spotifyId
                  (filter (\<lambda>t. track_userId t = uid) (db_tracks s))))"
      by auto
    then show "(track_spotifyId (track_data uid it) \<notin> set (map track_spotifyId
                  (filter (\<lambda>t. track_userId t = uid \<and> track_spotifyId t \<in> ?page) (db_tracks s))))
             = (sp_id (item_track it) \<notin> set (map track_spotifyId
                  (filter (\<lambda>t. track_userId t = uid) (db_tracks s))))"
      by (simp add: track_data_def)
  qed simp
  finally show ?thesis .
qed

lemma storePage_missing:
  assumes "storePage e items s = (Inr m, s')"
  shows "m = length (filter (\<lambda>it. sp_id (item_track it) \<notin> stored_ids s) items)"
  using assms
proof (cases rule: storePage_cases)
  case (tracks newArtists s1 s2 res)
  let ?sa = "album_createMany (uniqBy (map album_data items) album_id) s1"
  have "grows s s1" using lookupArtists_grows [OF tracks(1)] .
  moreover have "db_tracks s1 = db_tracks s" using lookupArtists_frame [OF tracks(1)] by simp
  moreover have "db_tracks ?sa = db_tracks s1" "user_id (this_user ?sa) = user_id (this_user s1)"
    by (simp_all add: album_createMany_def)
  moreover have "db_tracks s2 = db_tracks ?sa" "user_id (this_user s2) = user_id (this_user ?sa)"
    using tracks(2) by (auto simp: artist_createMany_def split: if_splits)
  ultimately have same: "db_tracks s2 = db_tracks s" "user_id (this_user s2) = user_id (this_user s)"
    by (simp_all add: grows_def)
  from tracks(4) have "m = length (missing_of (user_id (this_user s2)) items s2)"
    by (cases res) simp_all
  then show ?thesis
    by (simp add: missing_of_length same stored_ids_def)
qed simp_all

lemma album_data_id: "album_id (album_data it) = sp_album_id (sp_album (item_track it))"
  by (simp add: album_data_def Let_def)

lemma storePage_eq:
  "storePage e items s =
     (case lookupArtists e (difference (page_artist_ids items)
             (map artist_id (filter (\<lambda>a. artist_id a \<in> set (page_artist_ids items))
                (db_artists s)))) s of
        (Inl err, s1) \<Rightarrow> (Inl err, s1)
      | (Inr newArtists, s1) \<Rightarrow>
          (case artist_createMany newArtists
                  (album_createMany (uniqBy (map album_data items) album_id) s1) of
             (Inl err, s2) \<Rightarrow> (Inl err, s2)
           | (Inr u, s2) \<Rightarrow>
               (case create_all (missing_of (user_id (this_user s2)) items s2) s2 of
                  (Some err, s3) \<Rightarrow> (Inl err, s3)
                | (None, s3) \<Rightarrow>
                    (Inr (length (missing_of (user_id (this_user s2)) items s2)), s3))))"
  unfolding storePage_def page_artist_ids_def missing_of_def Let_def by (rule refl)

lemma page_album_ids:
  "album_id ` set (insert_skipDuplicates rows (uniqBy (map album_data items) album_id))
     = album_id ` set rows \<union> (\<lambda>it. sp_album_id (sp_album (item_track it))) ` set items"
proof -
  have "set (map album_id (uniqBy (map album_data items) album_id))
          = set (map album_id (map album_data items))"
    by (rule uniqBy_keys)
  also have "\<dots> = (\<lambda>it. sp_album_id (sp_album (item_track it))) ` set items"
    by (simp add: image_image album_data_id)
  finally have "album_id ` set (uniqBy (map album_data items) album_id)
          = (\<lambda>it. sp_album_id (sp_album (item_track it))) ` set items"
    by simp
  with insert_skipDuplicates_ids [of rows "uniqBy (map album_data items) album_id"]
  show ?thesis by simp
qed

lemma storePage_post:
  assumes "storePage e items s = (Inr m, s')" and "serves_artists e"
  shows "page_stored items s'"
  using assms(1)
proof (cases rule: storePage_cases)
  case (tracks newArtists s1 s2 res)
  let ?sa = "album_createMany (uniqBy (map album_data items) album_id) s1"
  let ?uid = "user_id (this_user s2)"
  from tracks(4) have res: "res = None" by (cases res) simp_all
  have g: "grows s2 s'" using create_all_grows [OF tracks(3)] .
  have "set (map (\<lambda>it. sp_album_id (sp_album (item_track it))) items)
          \<subseteq> set (map album_id (db_albums ?sa))"
    by (simp add: album_createMany_def page_album_ids)
  moreover have "db_albums s2 = db_albums ?sa"
    using tracks(2) by (auto simp: artist_createMany_def split: if_splits)
  ultimately have albums: "set (map (\<lambda>it. sp_album_id (sp_album (item_track it))) items)
          \<subseteq> set (map album_id (db_albums s'))"
    using g by (auto simp: grows_def prefix_def)
  have ids: "map artist_id newArtists = difference (page_artist_ids items)
      (map artist_id (filter (\<lambda>a. artist_id a \<in> set (page_artist_ids items)) (db_artists s)))"
    using lookupArtists_ids [OF tracks(1) assms(2)] .
  have "db_artists s1 = db_artists s" using lookupArtists_frame [OF tracks(1)] by simp
  then have s2: "db_artists s2 = db_artists s @ newArtists"
    using tracks(2) by (auto simp: artist_createMany_def album_createMany_def split: if_splits)
  have "x \<in> set (map artist_id (db_artists s2))" if x: "x \<in> set (page_artist_ids items)" for x
  proof (cases "x \<in> set (map artist_id (db_artists s))")
    case True
    then show ?thesis by (auto simp: s2)
  next
    case False
    then have "x \<in> set (difference (page_artist_ids items)
      (map artist_id (filter (\<lambda>a. artist_id a \<in> set (page_artist_ids items)) (db_artists s))))"
      using x by (auto simp: difference_def)
    then have "x \<in> set (map artist_id newArtists)"
      unfolding ids .
    then show ?thesis by (auto simp: s2)
  qed
  then have "set (page_artist_ids items) \<subseteq> set (map artist_id (db_artists s2))"
    by blast
  then have artists: "set (concat (map (\<lambda>it. sp_artists (item_track it)) items))
          \<subseteq> set (map artist_id (db_artists s'))"
    using g by (auto simp: grows_def prefix_def page_artist_ids_def uniq_set)
  have uid: "user_id (this_user s') = ?uid" using g by (simp add: grows_def)
  have created: "set (missing_of ?uid items s2) \<subseteq> set (db_tracks s')"
    using create_all_created tracks(3) res by blast
  have "sp_id (item_track it) \<in> stored_ids s'" if it: "it \<in> set items" for it
  proof (cases "sp_id (item_track it) \<in> stored_ids s2")
    case True
    with grows_stored_ids [OF g] show ?thesis by blast
  next
    case False
    then have "track_data ?uid it \<in> set (missing_of ?uid items s2)"
      using it by (auto simp: missing_of_def differenceBy_def stored_ids_def track_data_def)
    with created have "track_data ?uid it \<in> set (db_tracks s')" by blast
    then show ?thesis
      unfolding stored_ids_def uid by (force simp: track_data_def)
  qed
  then have "set (map (\<lambda>it. sp_id (item_track it)) items) \<subseteq> stored_ids s'" by auto
  with albums artists show ?thesis by (simp add: page_stored_def)
qed simp_all

lemma storePage_noop:
  assumes "page_stored items s"
  shows "\<exists>s'. storePage e items s = (Inr 0, s') \<and> db_albums s' = db_albums s
           \<and> db_artists s' = db_artists s \<and> db_tracks s' = db_tracks s
           \<and> db_users s' = db_users s \<and> this_user s' = this_user s \<and> sent s' = sent s"
proof -
  let ?albums = "uniqBy (map album_data items) album_id"
  let ?sa = "album_createMany ?albums s"
  have "set (page_artist_ids items) \<subseteq> set (map artist_id (db_artists s))"
    using assms by (simp add: page_stored_def page_artist_ids_def uniq_set)
  then have nonew: "difference (page_artist_ids items)
      (map artist_id (filter (\<lambda>a. artist_id a \<in> set (page_artist_ids items)) (db_artists s))) = []"
    by (auto simp: difference_def filter_empty_conv)
  have "set (map album_id (map album_data items)) \<subseteq> set (map album_id (db_albums s))"
    using assms by (simp add: page_stored_def image_image album_data_id)
  then have "set (map album_id ?albums) \<subseteq> set (map album_id (db_albums s))"
    unfolding uniqBy_keys .
  then have sa: "db_albums ?sa = db_albums s"
    by (simp add: album_createMany_def insert_skipDuplicates_noop)
  obtain s2 where s2: "artist_createMany [] ?sa = (Inr (), s2)"
    and same: "db_albums s2 = db_albums s" "db_artists s2 = db_artists s"
      "db_tracks s2 = db_tracks s" "db_users s2 = db_users s" "this_user s2 = this_user s"
      "sent s2 = sent s"
    using sa by (simp add: artist_createMany_def album_createMany_def)
  have "length (missing_of (user_id (this_user s2)) items s2) = 0"
    unfolding missing_of_length using assms
    by (auto simp: page_stored_def stored_ids_def same filter_empty_conv)
  then have none: "missing_of (user_id (this_user s2)) items s2 = []" by simp
  have "storePage e items s = (Inr 0, s2)"
    using nonew s2 none
    by (simp add: storePage_eq lookupArtists_none)
  with same show ?thesis by simp
qed


subsection \<open>A page fetched, and the loop\<close>

lemma fetchPage_grows:
  assumes "fetchPage e offset limit s = (r, s1)"
  shows "grows s s1 \<and> db_albums s1 = db_albums s \<and> db_artists s1 = db_artists s
         \<and> db_tracks s1 = db_tracks s \<and> stored_ids s1 = stored_ids s"
proof -
  obtain r0 where f: "spotifyFetch e (get_request (MeTracks offset limit)) s = (r0, s1)"
    using assms by (auto simp: fetchPage_def split: prod.splits sum.splits)
  from spotifyFetch_tables [OF f] spotifyFetch_grows [OF f] show ?thesis
    by (simp add: stored_ids_def)
qed

lemma fetchPage_items:
  assumes "fetchPage e offset limit s = (Inr items, s1)" and "serves_feed e feed"
  shows "items = take limit (drop offset feed)"
proof -
  from assms(1) obtain body where
    f: "spotifyFetch e (get_request (MeTracks offset limit)) s = (Inr body, s1)" and
    p: "TracksResponse_parse body = Inr items"
    by (auto simp: fetchPage_def split: prod.splits sum.splits)
  from p have "body = TracksJson items" by (cases body) simp_all
  with spotifyFetch_answer [OF f] obtain n rq status where
    "req_url rq = MeTracks offset limit"
    "network e n rq = Response True status (Some (TracksJson items))"
    by (auto simp: get_request_def)
  with assms(2) show ?thesis unfolding serves_feed_def by blast
qed

lemma fetchPage_favorites:
  assumes "fetchPage e offset limit s = (Inr items, s1)"
  shows "favorites_fetches s1 = favorites_fetches s @ [MeTracks offset limit]"
proof -
  from assms(1) obtain body where
    f: "spotifyFetch e (get_request (MeTracks offset limit)) s = (Inr body, s1)"
    by (auto simp: fetchPage_def split: prod.splits sum.splits)
  from spotifyFetch_favorites [OF f] show ?thesis by (simp add: get_request_def)
qed

lemma syncLoop_grows:
  "syncLoop fuel e offset limit s = Some (r, s') \<Longrightarrow> grows s s'"
proof (induction fuel arbitrary: offset limit s)
  case 0
  then show ?case by simp
next
  case (Suc fuel)
  obtain r1 s1 where f: "fetchPage e offset limit s = (r1, s1)"
    by (cases "fetchPage e offset limit s")
  have g1: "grows s s1" using fetchPage_grows [OF f] by simp
  show ?case
  proof (cases r1)
    case (Inl err)
    with Suc.prems f g1 show ?thesis by simp
  next
    case (Inr items)
    obtain r2 s2 where st: "storePage e items s1 = (r2, s2)"
      by (cases "storePage e items s1")
    have g2: "grows s s2" using g1 storePage_grows [OF st] by (blast intro: grows_trans)
    show ?thesis
    proof (cases r2)
      case (Inl err)
      with Suc.prems f Inr st g2 show ?thesis by simp
    next
      case (Inr missing)
      show ?thesis
      proof (cases "missing = limit")
        case True
        with Suc.prems f \<open>r1 = Inr items\<close> st Inr
        have "syncLoop fuel e (offset + limit) 25 s2 = Some (r, s')" by simp
        from Suc.IH [OF this] g2 show ?thesis by (blast intro: grows_trans)
      next
        case False
        with Suc.prems f \<open>r1 = Inr items\<close> st Inr g2 show ?thesis by simp
      qed
    qed
  qed
qed

lemma length_filter_all: "(length (filter P xs) = length xs) = (\<forall>x \<in> set xs. P x)"
  by (induction xs) (auto simp: le_imp_less_Suc [OF length_filter_le] less_imp_neq)







subsection \<open>The example feeds\<close>

lemma env_fav_serves_feed: "serves_feed (env_fav feed) feed"
  by (auto simp: serves_feed_def env_fav_def env0_def split: url.splits)

lemma env_fav_serves_artists: "serves_artists (env_fav feed)"
  by (auto simp: serves_artists_def env_fav_def env0_def comp_def split: url.splits)

lemma run_feed3:
  "syncFavoriteTracks 2 (env_fav feed3) state1
     = Some (Inr (), snd (the (syncFavoriteTracks 2 (env_fav feed3) state1)))"
proof -
  have "syncFavoriteTracks 2 (env_fav feed3) state1 \<noteq> None"
       "fst (the (syncFavoriteTracks 2 (env_fav feed3) state1)) = Inr ()"
    by code_simp+
  then show ?thesis by (auto simp: prod_eq_iff)
qed

lemma run_feed30:
  "syncFavoriteTracks 3 (env_fav feed30) state4
     = Some (Inr (), snd (the (syncFavoriteTracks 3 (env_fav feed30) state4)))"
proof -
  have "syncFavoriteTracks 3 (env_fav feed30) state4 \<noteq> None"
       "fst (the (syncFavoriteTracks 3 (env_fav feed30) state4)) = Inr ()"
    by code_simp+
  then show ?thesis by (auto simp: prod_eq_iff)
qed

lemma fetch_feed3:
  "fetchPage (env_fav feed3) 0 5 state1
     = (Inr feed3, snd (fetchPage (env_fav feed3) 0 5 state1))"
proof -
  have "fst (fetchPage (env_fav feed3) 0 5 state1) = Inr feed3"
    by code_simp
  then show ?thesis by (simp add: prod_eq_iff)
qed

lemma store_fetched_feed3:
  "storePage (env_fav feed3) feed3 (snd (fetchPage (env_fav feed3) 0 5 state1))
     = (Inr 3, snd (storePage (env_fav feed3) feed3 (snd (fetchPage (env_fav feed3) 0 5 state1))))"
proof -
  have "fst (storePage (env_fav feed3) feed3 (snd (fetchPage (env_fav feed3) 0 5 state1))) = Inr 3"
    by code_simp
  then show ?thesis by (simp add: prod_eq_iff)
qed


subsection \<open>The claims about the pull\<close>

text \<open>
  C4, as amended. A page of at most \<open>limit\<close> tracks has been fetched and stored: the
  loop goes on, with the offset advanced by \<open>limit\<close> and the limit set to 25, exactly
  when the page is full (it has \<open>limit\<close> tracks) and none of its tracks was stored for
  the user before; otherwise the pull ends, so it ends on a track that is already stored
  and also on a page shorter than the limit. And for a service with a fixed feed of at
  least 5 tracks whose first 5 are all new to the store and whose next window of 25 holds a
  track that the store has: a pull that completes has sent exactly two favourites
  requests, for offset 0 and limit 5 and then for offset 5 and limit 25.
\<close>

theorem syncLoop_page_decision:
  "(fetchPage e offset limit s = (Inr items, s1) \<longrightarrow>
    storePage e items s1 = (Inr missing, s2) \<longrightarrow>
    length items \<le> limit \<longrightarrow>
      syncLoop (Suc fuel) e offset limit s =
        (if length items = limit \<and> (\<forall>it \<in> set items. sp_id (item_track it) \<notin> stored_ids s)
         then syncLoop fuel e (offset + limit) 25 s2
         else Some (Inr (), s2)))
   \<and>
   (serves_feed e feed \<longrightarrow>
    5 \<le> length feed \<longrightarrow>
    (\<forall>it \<in> set (take 5 feed). sp_id (item_track it) \<notin> stored_ids s) \<longrightarrow>
    (\<exists>it \<in> set (take 25 (drop 5 feed)). sp_id (item_track it) \<in> stored_ids s) \<longrightarrow>
    syncFavoriteTracks fuel' e s = Some (Inr (), s') \<longrightarrow>
      favorites_fetches s' = favorites_fetches s @ [MeTracks 0 5, MeTracks 5 25])"
proof (intro conjI impI)
  assume fp: "fetchPage e offset limit s = (Inr items, s1)"
     and sp: "storePage e items s1 = (Inr missing, s2)"
     and len: "length items \<le> limit"
  let ?new = "\<lambda>it. sp_id (item_track it) \<notin> stored_ids s"
  have "stored_ids s1 = stored_ids s" using fetchPage_grows [OF fp] by simp
  with storePage_missing [OF sp] have m: "missing = length (filter ?new items)" by simp
  have "(missing = limit) = (length items = limit \<and> (\<forall>it \<in> set items. ?new it))"
  proof (cases "\<forall>it \<in> set items. ?new it")
    case True
    then have "length (filter ?new items) = length items"
      by (simp add: length_filter_all)
    with m True show ?thesis by simp
  next
    case False
    then have "length (filter ?new items) \<noteq> length items"
      by (simp add: length_filter_all)
    moreover have "length (filter ?new items) \<le> length items" by simp
    ultimately have "length (filter ?new items) < limit" using len by linarith
    with m False show ?thesis by simp
  qed
  with fp sp show "syncLoop (Suc fuel) e offset limit s =
        (if length items = limit \<and> (\<forall>it \<in> set items. ?new it)
         then syncLoop fuel e (offset + limit) 25 s2
         else Some (Inr (), s2))"
    by simp
next
  assume feed: "serves_feed e feed" and len: "5 \<le> length feed"
     and new: "\<forall>it \<in> set (take 5 feed). sp_id (item_track it) \<notin> stored_ids s"
     and known: "\<exists>it \<in> set (take 25 (drop 5 feed)). sp_id (item_track it) \<in> stored_ids s"
     and run: "syncFavoriteTracks fuel' e s = Some (Inr (), s')"
  from run obtain f where fuel: "fuel' = Suc f"
    by (cases fuel') (simp_all add: syncFavoriteTracks_def)
  from run fuel obtain items sa where fp: "fetchPage e 0 5 s = (Inr items, sa)"
    by (auto simp: syncFavoriteTracks_def split: prod.splits sum.splits)
  from run fuel fp obtain m sb where sp: "storePage e items sa = (Inr m, sb)"
    by (auto simp: syncFavoriteTracks_def split: prod.splits sum.splits)
  have items: "items = take 5 feed" using fetchPage_items [OF fp feed] by simp
  have "stored_ids sa = stored_ids s" using fetchPage_grows [OF fp] by simp
  with storePage_missing [OF sp]
  have "m = length (filter (\<lambda>it. sp_id (item_track it) \<notin> stored_ids s) (take 5 feed))"
    by (simp add: items)
  also have "\<dots> = length (take 5 feed)"
    using new by (simp add: length_filter_all)
  finally have m: "m = 5" using len by simp
  with run fuel fp sp have rest: "syncLoop f e 5 25 sb = Some (Inr (), s')"
    by (simp add: syncFavoriteTracks_def)
  then obtain f2 where f: "f = Suc f2" by (cases f) simp_all
  from rest f obtain items2 sc where fp2: "fetchPage e 5 25 sb = (Inr items2, sc)"
    by (auto split: prod.splits sum.splits)
  from rest f fp2 obtain m2 sd where sp2: "storePage e items2 sc = (Inr m2, sd)"
    by (auto split: prod.splits sum.splits)
  have items2: "items2 = take 25 (drop 5 feed)" using fetchPage_items [OF fp2 feed] .
  have g: "grows s sc"
    using fetchPage_grows [OF fp] storePage_grows [OF sp] fetchPage_grows [OF fp2]
    by (blast intro: grows_trans)
  from known obtain it where it: "it \<in> set items2" "sp_id (item_track it) \<in> stored_ids s"
    unfolding items2 by blast
  with grows_stored_ids [OF g] have "sp_id (item_track it) \<in> stored_ids sc" by blast
  with it(1) have "length (filter (\<lambda>it. sp_id (item_track it) \<notin> stored_ids sc) items2)
      \<noteq> length items2"
    by (auto simp: length_filter_all)
  moreover have "length (filter (\<lambda>it. sp_id (item_track it) \<notin> stored_ids sc) items2)
      \<le> length items2" by simp
  moreover have "length items2 \<le> 25" by (simp add: items2)
  ultimately have "m2 \<noteq> 25" using storePage_missing [OF sp2] by linarith
  with rest f fp2 sp2 have "s' = sd" by simp
  then show "favorites_fetches s' = favorites_fetches s @ [MeTracks 0 5, MeTracks 5 25]"
    using fetchPage_favorites [OF fp] storePage_grows [OF sp]
      fetchPage_favorites [OF fp2] storePage_grows [OF sp2]
    by simp
qed

theorem syncLoop_page_decision_witness:
  "favorites_fetches (snd (the (syncFavoriteTracks 3 (env_fav feed30) state4)))
     = [MeTracks 0 5, MeTracks 5 25]
   \<and> syncLoop 2 (env_fav feed3) 0 5 state1
     = Some (Inr (), snd (storePage (env_fav feed3) feed3
                            (snd (fetchPage (env_fav feed3) 0 5 state1))))"
proof -
  have len: "5 \<le> length feed30" by (simp add: feed30_def)
  have new: "\<forall>it \<in> set (take 5 feed30). sp_id (item_track it) \<notin> stored_ids state4"
    by code_simp
  have known: "\<exists>it \<in> set (take 25 (drop 5 feed30)). sp_id (item_track it) \<in> stored_ids state4"
    by code_simp
  have none: "favorites_fetches state4 = []"
    by code_simp
  have "favorites_fetches (snd (the (syncFavoriteTracks 3 (env_fav feed30) state4)))
          = favorites_fetches state4 @ [MeTracks 0 5, MeTracks 5 25]"
    using syncLoop_page_decision [where e = "env_fav feed30" and feed = feed30 and s = state4
        and fuel' = 3 and s' = "snd (the (syncFavoriteTracks 3 (env_fav feed30) state4))"]
      env_fav_serves_feed len new known run_feed30
    by blast
  with none have two: "favorites_fetches (snd (the (syncFavoriteTracks 3 (env_fav feed30) state4)))
          = [MeTracks 0 5, MeTracks 5 25]"
    by simp
  have short: "length feed3 \<le> 5" "length feed3 \<noteq> 5" by (simp_all add: feed3_def)
  have "syncLoop (Suc 1) (env_fav feed3) 0 5 state1
     = (if length feed3 = 5 \<and> (\<forall>it \<in> set feed3. sp_id (item_track it) \<notin> stored_ids state1)
        then syncLoop 1 (env_fav feed3) (0 + 5) 25
               (snd (storePage (env_fav feed3) feed3 (snd (fetchPage (env_fav feed3) 0 5 state1))))
        else Some (Inr (), snd (storePage (env_fav feed3) feed3
                            (snd (fetchPage (env_fav feed3) 0 5 state1)))))"
    using syncLoop_page_decision [where e = "env_fav feed3" and offset = 0 and limit = 5
        and s = state1 and items = feed3 and missing = 3 and fuel = 1
        and ?s1.0 = "snd (fetchPage (env_fav feed3) 0 5 state1)"
        and ?s2.0 = "snd (storePage (env_fav feed3) feed3 (snd (fetchPage (env_fav feed3) 0 5 state1)))"]
      fetch_feed3 store_fetched_feed3 short(1)
    by blast
  with short(2) have "syncLoop 2 (env_fav feed3) 0 5 state1
     = Some (Inr (), snd (storePage (env_fav feed3) feed3
                            (snd (fetchPage (env_fav feed3) 0 5 state1))))"
    by (simp add: numeral_2_eq_2)
  with two show ?thesis by simp
qed

text \<open>
  C4 as first stated fails on a short page: a feed of three tracks, none of them stored,
  is pulled with one request, and the pull ends there with the three tracks stored.
\<close>

theorem syncFavoriteTracks_short_page_counterexample:
  "map_option (\<lambda>(r, s'). (r, favorites_fetches s', length (db_tracks s')))
     (syncFavoriteTracks 2 (env_fav feed3) state1) = Some (Inr (), [MeTracks 0 5], 3)
   \<and> db_tracks state1 = [] \<and> length feed3 = 3"
  by code_simp

text \<open>
  C6. The service has a fixed feed and an artists endpoint that answers a lookup with
  the artists asked for, and a first pull has completed. Then a second pull from the
  state the first has left returns, whatever its fuel, and the album, artist and track
  tables after it are the tables before it: it creates and changes no row.
\<close>

theorem syncFavoriteTracks_idempotent:
  assumes "serves_feed e feed" and "serves_artists e"
      and "syncFavoriteTracks fuel e s = Some (Inr (), s1)"
  shows "\<exists>r s2. syncFavoriteTracks (Suc k) e s1 = Some (r, s2)
           \<and> db_albums s2 = db_albums s1 \<and> db_artists s2 = db_artists s1
           \<and> db_tracks s2 = db_tracks s1"
proof -
  let ?P = "take 5 (drop 0 feed)"
  from assms(3) obtain f where fuel: "fuel = Suc f"
    by (cases fuel) (simp_all add: syncFavoriteTracks_def)
  from assms(3) fuel obtain items sa where
    fp: "fetchPage e 0 5 s = (Inr items, sa)"
    by (auto simp: syncFavoriteTracks_def split: prod.splits sum.splits)
  from assms(3) fuel fp obtain m sb where
    sp: "storePage e items sa = (Inr m, sb)"
    by (auto simp: syncFavoriteTracks_def split: prod.splits sum.splits)
  have items: "items = ?P" using fetchPage_items [OF fp assms(1)] .
  have "grows sb s1"
  proof (cases "m = 5")
    case True
    with assms(3) fuel fp sp have "syncLoop f e (0 + 5) 25 sb = Some (Inr (), s1)"
      by (simp add: syncFavoriteTracks_def)
    then show ?thesis by (rule syncLoop_grows)
  next
    case False
    with assms(3) fuel fp sp have "s1 = sb" by (simp add: syncFavoriteTracks_def)
    then show ?thesis by (simp add: grows_refl)
  qed
  with storePage_post [OF sp assms(2)] have stored: "page_stored ?P s1"
    unfolding items by (rule page_stored_grows)
  obtain r1 sc where fp2: "fetchPage e 0 5 s1 = (r1, sc)"
    by (cases "fetchPage e 0 5 s1")
  note same = fetchPage_grows [OF fp2]
  show ?thesis
  proof (cases r1)
    case (Inl err)
    with fp2 same show ?thesis by (simp add: syncFavoriteTracks_def)
  next
    case (Inr items2)
    with fp2 have "items2 = ?P" using fetchPage_items assms(1) by blast
    moreover have "page_stored ?P sc" using stored same by (blast intro: page_stored_grows)
    ultimately obtain sd where
      "storePage e items2 sc = (Inr 0, sd)" "db_albums sd = db_albums sc"
      "db_artists sd = db_artists sc" "db_tracks sd = db_tracks sc"
      using storePage_noop [of ?P sc e] by auto
    with fp2 Inr same show ?thesis by (simp add: syncFavoriteTracks_def)
  qed
qed

theorem syncFavoriteTracks_idempotent_witness:
  "\<exists>s1. syncFavoriteTracks 2 (env_fav feed3) state1 = Some (Inr (), s1) \<and>
     (\<exists>r s2. syncFavoriteTracks (Suc 0) (env_fav feed3) s1 = Some (r, s2)
        \<and> db_albums s2 = db_albums s1 \<and> db_artists s2 = db_artists s1
        \<and> db_tracks s2 = db_tracks s1)"
  using syncFavoriteTracks_idempotent [OF env_fav_serves_feed env_fav_serves_artists run_feed3, of 0]
    run_feed3
  by blast




end
